theory Spec2Isabelle
  imports Main "HOL-Library.Sublist" "HOL-Library.Word"
begin

section \<open>Python strings\<close>

text \<open>
  A Python \<open>str\<close> is modelled as a \<^typ>\<open>string\<close> holding the bytes of its UTF-8 encoding:
  an ASCII character is one byte below \<open>0x80\<close>, every other code point two to four bytes
  from \<open>0x80\<close> on. Concatenation, equality and the search for an ASCII substring are the
  same on the bytes as on the code points.
\<close>

definition ascii_lowercase :: string where
  "ascii_lowercase = ''abcdefghijklmnopqrstuvwxyz''"

definition ascii_uppercase :: string where
  "ascii_uppercase = ''ABCDEFGHIJKLMNOPQRSTUVWXYZ''"

definition upper_char :: "char \<Rightarrow> char" where
  "upper_char c =
     (case map_of (zip ascii_lowercase ascii_uppercase) c of Some u \<Rightarrow> u | None \<Rightarrow> c)"

definition lower_char :: "char \<Rightarrow> char" where
  "lower_char c =
     (case map_of (zip ascii_uppercase ascii_lowercase) c of Some l \<Rightarrow> l | None \<Rightarrow> c)"

text \<open>
  \<open>str.upper\<close> uses the full case mapping of Unicode. Outside ASCII, these are the code
  points whose upper-case text holds an ASCII character, each with the UTF-8 bytes of the
  code point and of its upper-case text:
  U+00DF \<open>SS\<close>, U+0131 \<open>I\<close>, U+0149 U+02BC \<open>N\<close>, U+017F \<open>S\<close>, U+01F0 \<open>J\<close> U+030C,
  U+1E96 \<open>H\<close> U+0331, U+1E97 \<open>T\<close> U+0308, U+1E98 \<open>W\<close> U+030A, U+1E99 \<open>Y\<close> U+030A,
  U+1E9A \<open>A\<close> U+02BE, and the ligatures U+FB00 to U+FB06 \<open>FF\<close>, \<open>FI\<close>, \<open>FL\<close>, \<open>FFI\<close>, \<open>FFL\<close>,
  \<open>ST\<close>, \<open>ST\<close>.
\<close>

definition special_casing :: "(string \<times> string) list" where
  "special_casing =
     [([CHR 0xC3, CHR 0x9F], ''SS''),
      ([CHR 0xC4, CHR 0xB1], ''I''),
      ([CHR 0xC5, CHR 0x89], [CHR 0xCA, CHR 0xBC, CHR ''N'']),
      ([CHR 0xC5, CHR 0xBF], ''S''),
      ([CHR 0xC7, CHR 0xB0], [CHR ''J'', CHR 0xCC, CHR 0x8C]),
      ([CHR 0xE1, CHR 0xBA, CHR 0x96], [CHR ''H'', CHR 0xCC, CHR 0xB1]),
      ([CHR 0xE1, CHR 0xBA, CHR 0x97], [CHR ''T'', CHR 0xCC, CHR 0x88]),
      ([CHR 0xE1, CHR 0xBA, CHR 0x98], [CHR ''W'', CHR 0xCC, CHR 0x8A]),
      ([CHR 0xE1, CHR 0xBA, CHR 0x99], [CHR ''Y'', CHR 0xCC, CHR 0x8A]),
      ([CHR 0xE1, CHR 0xBA, CHR 0x9A], [CHR ''A'', CHR 0xCA, CHR 0xBE]),
      ([CHR 0xEF, CHR 0xAC, CHR 0x80], ''FF''),
      ([CHR 0xEF, CHR 0xAC, CHR 0x81], ''FI''),
      ([CHR 0xEF, CHR 0xAC, CHR 0x82], ''FL''),
      ([CHR 0xEF, CHR 0xAC, CHR 0x83], ''FFI''),
      ([CHR 0xEF, CHR 0xAC, CHR 0x84], ''FFL''),
      ([CHR 0xEF, CHR 0xAC, CHR 0x85], ''ST''),
      ([CHR 0xEF, CHR 0xAC, CHR 0x86], ''ST'')]"

text \<open>
  The entry of the table whose code point stands at the start of the string, as the number
  of bytes the code point takes and its upper-case text.
\<close>

fun upper_at :: "(string \<times> string) list \<Rightarrow> string \<Rightarrow> (nat \<times> string) option" where
  "upper_at [] s = None"
| "upper_at ((src, dst) # tbl) s =
     (if prefix src s then Some (length src, dst) else upper_at tbl s)"

text \<open>
  \<open>s.upper()\<close>: an ASCII letter becomes its capital, a code point of \<open>special_casing\<close> its
  upper-case text. The bytes of every other code point are left as they are; Python may
  put another code point there, always one outside ASCII. So the result has the same
  ASCII characters at the same places between the same number of other code points as
  Python's, and an ASCII string occurs in one exactly when it occurs in the other.
\<close>

fun upper :: "string \<Rightarrow> string" where
  "upper [] = []"
| "upper (c # cs) =
     (case upper_at special_casing (c # cs) of
        Some (n, dst) \<Rightarrow> dst @ upper (drop (n - 1) cs)
      | None \<Rightarrow> upper_char c # upper cs)"

text \<open>
  \<open>s.lower()\<close>, on the ASCII letters. Outside ASCII only U+0130 and U+212A have an ASCII
  character in their lower-case text, \<open>i\<close> and \<open>k\<close>; the script compares lower-cased text
  with \<open>true\<close>, \<open>1\<close>, \<open>yes\<close>, \<open>t\<close> and \<open>y\<close> only, which hold neither.
\<close>

definition lower :: "string \<Rightarrow> string" where
  "lower s = map lower_char s"

text \<open>\<open>key in s\<close> on two strings: \<open>key\<close> occurs in \<open>s\<close> as a contiguous substring.\<close>

fun py_in :: "string \<Rightarrow> string \<Rightarrow> bool" where
  "py_in k [] = (k = [])"
| "py_in k (c # cs) = (prefix k (c # cs) \<or> py_in k cs)"

text \<open>\<open>sep.join(xs)\<close>.\<close>

fun join :: "string \<Rightarrow> string list \<Rightarrow> string" where
  "join sep [] = []"
| "join sep [x] = x"
| "join sep (x # y # ys) = x @ sep @ join sep (y # ys)"

text \<open>The double quote character, as a one-character string.\<close>

definition dq :: string where
  "dq = [CHR 0x22]"

section \<open>Type mapper: \<open>sqlite_type_to_postgres\<close>\<close>

text \<open>
  The dictionary literal \<open>type_mapping\<close>. Its keys are distinct, and a Python dictionary
  iterates in insertion order, so the list below is the iteration order of the loop.
\<close>

definition type_mapping :: "(string \<times> string) list" where
  "type_mapping =
     [(''INTEGER'', ''INTEGER''),
      (''TEXT'', ''TEXT''),
      (''REAL'', ''REAL''),
      (''BLOB'', ''BYTEA''),
      (''NUMERIC'', ''NUMERIC''),
      (''VARCHAR'', ''VARCHAR''),
      (''DATETIME'', ''TIMESTAMP''),
      (''DATE'', ''DATE''),
      (''TIME'', ''TIME''),
      (''BOOLEAN'', ''BOOLEAN''),
      (''JSON'', ''JSONB'')]"

text \<open>
  The loop \<open>for key in type_mapping: if key in sqlite_type_upper: return type_mapping[key]\<close>
  followed by \<open>return 'TEXT'\<close>.
\<close>

fun first_match :: "(string \<times> string) list \<Rightarrow> string \<Rightarrow> string" where
  "first_match [] s = ''TEXT''"
| "first_match ((key, target) # rest) s =
     (if py_in key s then target else first_match rest s)"

definition sqlite_type_to_postgres :: "string \<Rightarrow> string" where
  "sqlite_type_to_postgres sqlite_type = first_match type_mapping (upper sqlite_type)"

section \<open>Values and the value converter: \<open>convert_value\<close>\<close>

text \<open>
  The calendar objects of Python's \<open>datetime\<close> module: a date (year, month, day), a time of
  day (hour, minute, second, microsecond) and a naive datetime, which is a date and a time.
  \<open>d.date()\<close> is \<open>date_part d\<close> and \<open>d.time()\<close> is \<open>time_part d\<close>.
\<close>

datatype pydate = Date int int int

datatype pytime = Time int int int int

datatype datetime = DateTime (date_part: pydate) (time_part: pytime)

text \<open>
  The Python values that flow through the converter. The module \<open>sqlite3\<close> returns
  \<open>None\<close>, \<open>int\<close>, \<open>float\<close>, \<open>str\<close> and \<open>bytes\<close>; the converter adds \<open>bool\<close> and the calendar
  objects. A \<open>float\<close> is kept as the 64 bits of its IEEE 754 double.
\<close>

datatype pyval =
    VNone
  | VBool bool
  | VInt int
  | VFloat "64 word"
  | VStr string
  | VBytes "8 word list"
  | VDateTime datetime
  | VDate pydate
  | VTime pytime

text \<open>The exceptions, by the classes the handlers of \<open>main\<close> tell apart.\<close>

datatype exn =
    SqliteError
  | PgError
  | UnboundLocalError
  | OverflowError
  | OtherException

text \<open>\<open>isinstance(value, (int, float))\<close>; in Python \<open>bool\<close> is a subclass of \<open>int\<close>.\<close>

fun is_int_or_float :: "pyval \<Rightarrow> bool" where
  "is_int_or_float (VBool b) = True"
| "is_int_or_float (VInt n) = True"
| "is_int_or_float (VFloat f) = True"
| "is_int_or_float v = False"


text \<open>
  \<open>bool(value)\<close>, Python's truth test. A float is false exactly when it is \<open>0.0\<close> or
  \<open>-0.0\<close>, that is when its 63 bits below the sign bit are all zero; the calendar objects
  are always true.
\<close>

fun py_bool :: "pyval \<Rightarrow> bool" where
  "py_bool VNone = False"
| "py_bool (VBool b) = b"
| "py_bool (VInt n) = (n \<noteq> 0)"
| "py_bool (VFloat f) = (take_bit 63 f \<noteq> 0)"
| "py_bool (VStr s) = (s \<noteq> [])"
| "py_bool (VBytes b) = (b \<noteq> [])"
| "py_bool (VDateTime d) = True"
| "py_bool (VDate d) = True"
| "py_bool (VTime t) = True"

text \<open>
  \<open>try: return body / except: return fallback\<close>, with a bare \<open>except\<close>: whatever the body
  raises, the fallback is returned.
\<close>

definition try_return :: "exn + 'a \<Rightarrow> 'a \<Rightarrow> exn + 'a" where
  "try_return body fallback = (case body of Inl e \<Rightarrow> Inr fallback | Inr r \<Rightarrow> Inr r)"

text \<open>
  \<open>convert_value(value, pg_type)\<close>. The parameter \<open>fromtimestamp_ms\<close> stands for the
  expression \<open>datetime.fromtimestamp(value / 1000.0)\<close> on an \<open>int\<close> or \<open>float\<close>: floating
  point division and the platform's local-time conversion, which raises (\<open>Inl\<close>) when
  the value is out of the range the platform represents. The result is \<open>Inr\<close> of the
  returned value, or \<open>Inl\<close> of an exception that reaches the caller.
\<close>

definition convert_value :: "(pyval \<Rightarrow> exn + datetime) \<Rightarrow> pyval \<Rightarrow> string \<Rightarrow> exn + pyval" where
  "convert_value fromtimestamp_ms v pg_type =
     (if v = VNone then Inr VNone
      else if pg_type = ''boolean'' then
        (if is_int_or_float v then Inr (VBool (py_bool v))
         else
           (case v of
              VStr s \<Rightarrow> Inr (VBool (lower s \<in> set [''true'', ''1'', ''yes'', ''t'']))
            | _ \<Rightarrow> Inr (VBool (py_bool v))))
      else if pg_type \<in> set [''timestamp without time zone'', ''timestamp with time zone''] then
        (if is_int_or_float v then
           try_return (map_sum id VDateTime (fromtimestamp_ms v)) v
         else Inr v)
      else if pg_type = ''date'' then
        (if is_int_or_float v then
           try_return (map_sum id (\<lambda>d. VDate (date_part d)) (fromtimestamp_ms v)) v
         else Inr v)
      else if pg_type = ''time without time zone'' then
        (if is_int_or_float v then
           try_return (map_sum id (\<lambda>d. VTime (time_part d)) (fromtimestamp_ms v)) v
         else Inr v)
      else Inr v)"

section \<open>Schema synthesis: \<open>create_postgres_table\<close>\<close>

text \<open>
  One row of \<open>PRAGMA table_info\<close>: \<open>(cid, name, type, notnull, dflt_value, pk)\<close>. The flags
  are integers, tested for truth (non-zero); the default is a string or \<open>None\<close>.
\<close>

record column =
  col_id :: int
  col_name :: string
  col_type :: string
  not_null :: int
  default_val :: "string option"
  pk :: int

text \<open>The body of the loop over the schema: the definition of one column.\<close>

definition column_def :: "column \<Rightarrow> string" where
  "column_def col =
     (let pg_type = sqlite_type_to_postgres (col_type col);
          d0 = dq @ col_name col @ dq @ '' '' @ pg_type;
          d1 = (if pk col \<noteq> 0 then d0 @ '' PRIMARY KEY''
                else if not_null col \<noteq> 0 then d0 @ '' NOT NULL''
                else d0)
      in case default_val col of
           Some dv \<Rightarrow> if pk col = 0 then d1 @ '' DEFAULT '' @ dv else d1
         | None \<Rightarrow> d1)"

definition create_table_sql :: "string \<Rightarrow> column list \<Rightarrow> string" where
  "create_table_sql table_name schema =
     ''CREATE TABLE IF NOT EXISTS '' @ dq @ table_name @ dq @ '' ('' @
     join '', '' (map column_def schema) @ '');''"

section \<open>The two databases and the console\<close>

text \<open>The lines the script prints, by kind; the text of an exception is left out.\<close>

datatype msg =
    Banner
  | Config
  | Cancelled
  | ConnectingSqlite
  | ConnectingPg
  | FoundTables nat
  | Processing string
  | Created string
  | CreateFailed string
  | TableEmpty string
  | Migrated nat string
  | MigrateFailed string
  | Blank
  | Completed
  | SqliteErrorLine
  | PgErrorLine
  | UnexpectedErrorLine

text \<open>
  What the run does to the outside, in the order it does it: the lines printed, the prompt,
  and every call on the two connections with its arguments.
\<close>

datatype event =
    Print msg
  | Prompt
  | SqliteConnect
  | PgConnect
  | ListTables
  | TableInfo string
  | SelectAll string
  | Execute string
  | ColumnTypes string
  | ExecuteMany string "pyval list list"
  | Commit
  | Rollback
  | SqliteClose
  | PgClose

text \<open>
  The outside of the script, as the answers it gives. The source database is only read, so
  its answers depend on the query alone; an answer of the target may depend on everything
  done so far, which is the list of events. \<open>None\<close> is a call that returns, \<open>Some e\<close>
  one that raises \<open>e\<close>. \<open>select_all\<close> answers with the column names of
  \<open>cursor.description\<close> and the rows of \<open>fetchall()\<close>.
\<close>

record env =
  response :: string
  sqlite_connect :: "exn option"
  pg_connect :: "exn option"
  list_tables :: "exn + string list"
  table_info :: "string \<Rightarrow> exn + column list"
  select_all :: "string \<Rightarrow> exn + string list \<times> pyval list list"
  pg_execute :: "event list \<Rightarrow> string \<Rightarrow> exn option"
  pg_column_types :: "event list \<Rightarrow> string \<Rightarrow> exn + (string \<times> string) list"
  pg_executemany :: "event list \<Rightarrow> string \<Rightarrow> pyval list list \<Rightarrow> exn option"
  pg_commit :: "event list \<Rightarrow> exn option"
  fromtimestamp_ms :: "pyval \<Rightarrow> exn + datetime"

definition get_sqlite_tables :: "env \<Rightarrow> event list \<Rightarrow> (exn + string list) \<times> event list" where
  "get_sqlite_tables E log = (list_tables E, log @ [ListTables])"

definition get_table_schema ::
  "env \<Rightarrow> string \<Rightarrow> event list \<Rightarrow> (exn + column list) \<times> event list" where
  "get_table_schema E table_name log = (table_info E table_name, log @ [TableInfo table_name])"

definition create_postgres_table ::
  "env \<Rightarrow> string \<Rightarrow> column list \<Rightarrow> event list \<Rightarrow> (exn + unit) \<times> event list" where
  "create_postgres_table E table_name schema log =
     (let sql = create_table_sql table_name schema in
      case pg_execute E log sql of
        None \<Rightarrow> (Inr (), log @ [Execute sql, Print (Created table_name)])
      | Some e \<Rightarrow> (Inl e, log @ [Execute sql, Print (CreateFailed table_name)]))"

text \<open>
  The dictionary comprehension \<open>{row[0]: row[1] for row in rows}\<close>: a later row
  replaces an earlier one of the same key.
\<close>

definition dict_of :: "(string \<times> string) list \<Rightarrow> (string \<rightharpoonup> string)" where
  "dict_of rows = foldl (\<lambda>m (k, v). m(k \<mapsto> v)) Map.empty rows"

definition get_postgres_column_types ::
  "env \<Rightarrow> string \<Rightarrow> event list \<Rightarrow> (exn + (string \<rightharpoonup> string)) \<times> event list" where
  "get_postgres_column_types E table_name log =
     (map_sum id dict_of (pg_column_types E log table_name), log @ [ColumnTypes table_name])"

text \<open>\<open>d.get(key, default)\<close>.\<close>

definition dict_get :: "(string \<rightharpoonup> string) \<Rightarrow> string \<Rightarrow> string \<Rightarrow> string" where
  "dict_get d key dflt = (case d key of Some x \<Rightarrow> x | None \<Rightarrow> dflt)"

section \<open>Data transfer: \<open>migrate_table_data\<close>\<close>

definition insert_sql :: "string \<Rightarrow> string list \<Rightarrow> string" where
  "insert_sql table_name column_names =
     (let placeholders = join '', '' (replicate (length column_names) ''%s'');
          columns_str = join '', '' (map (\<lambda>col. dq @ col @ dq) column_names)
      in ''INSERT INTO '' @ dq @ table_name @ dq @ '' ('' @ columns_str @ '') VALUES ('' @
         placeholders @ '')'')"

text \<open>
  The inner loop \<open>for col_name, value in zip(column_names, row)\<close>, over the zipped list:
  each cell is converted at the type the target reports for its column, \<open>'text'\<close> when it
  reports none.
\<close>

fun convert_cells ::
  "(pyval \<Rightarrow> exn + datetime) \<Rightarrow> (string \<rightharpoonup> string) \<Rightarrow> (string \<times> pyval) list \<Rightarrow> exn + pyval list" where
  "convert_cells f pg_types [] = Inr []"
| "convert_cells f pg_types ((name, v) # rest) =
     (case convert_value f v (dict_get pg_types name ''text'') of
        Inl e \<Rightarrow> Inl e
      | Inr converted_value \<Rightarrow>
          (case convert_cells f pg_types rest of
             Inl e \<Rightarrow> Inl e
           | Inr converted_row \<Rightarrow> Inr (converted_value # converted_row)))"

definition convert_row ::
  "(pyval \<Rightarrow> exn + datetime) \<Rightarrow> string list \<Rightarrow> (string \<rightharpoonup> string) \<Rightarrow> pyval list \<Rightarrow> exn + pyval list" where
  "convert_row f column_names pg_types row = convert_cells f pg_types (zip column_names row)"

text \<open>The loop \<open>for row in batch\<close>.\<close>

fun convert_batch ::
  "(pyval \<Rightarrow> exn + datetime) \<Rightarrow> string list \<Rightarrow> (string \<rightharpoonup> string) \<Rightarrow> pyval list list \<Rightarrow>
   exn + pyval list list" where
  "convert_batch f column_names pg_types [] = Inr []"
| "convert_batch f column_names pg_types (row # batch) =
     (case convert_row f column_names pg_types row of
        Inl e \<Rightarrow> Inl e
      | Inr converted_row \<Rightarrow>
          (case convert_batch f column_names pg_types batch of
             Inl e \<Rightarrow> Inl e
           | Inr converted_batch \<Rightarrow> Inr (converted_row # converted_batch)))"

definition batch_size :: nat where
  "batch_size = 100"

text \<open>
  The loop \<open>for i in range(0, len(rows), batch_size)\<close> from index \<open>i\<close> on: the slice
  \<open>rows[i:i + batch_size]\<close> is converted and handed to \<open>executemany\<close>; the first exception
  ends the loop.
\<close>

function insert_batches ::
  "env \<Rightarrow> string \<Rightarrow> string list \<Rightarrow> (string \<rightharpoonup> string) \<Rightarrow> pyval list list \<Rightarrow> nat \<Rightarrow> event list \<Rightarrow>
   (exn + unit) \<times> event list" where
  "insert_batches E sql column_names pg_types rows i log =
     (if i < length rows then
        (let batch = take batch_size (drop i rows) in
         case convert_batch (fromtimestamp_ms E) column_names pg_types batch of
           Inl e \<Rightarrow> (Inl e, log)
         | Inr converted_batch \<Rightarrow>
             (case pg_executemany E log sql converted_batch of
                Some e \<Rightarrow> (Inl e, log @ [ExecuteMany sql converted_batch])
              | None \<Rightarrow>
                  insert_batches E sql column_names pg_types rows (i + batch_size)
                    (log @ [ExecuteMany sql converted_batch])))
      else (Inr (), log))"
  by pat_completeness auto
termination
  by (relation "measure (\<lambda>(E, sql, column_names, pg_types, rows, i, log). length rows - i)")
     (auto simp: batch_size_def)

definition migrate_table_data :: "env \<Rightarrow> string \<Rightarrow> event list \<Rightarrow> (exn + unit) \<times> event list" where
  "migrate_table_data E table_name log =
     (let log1 = log @ [SelectAll table_name] in
      case select_all E table_name of
        Inl e \<Rightarrow> (Inl e, log1)
      | Inr (column_names, rows) \<Rightarrow>
          if rows = [] then (Inr (), log1 @ [Print (TableEmpty table_name)])
          else
            (case get_postgres_column_types E table_name log1 of
               (Inl e, log2) \<Rightarrow> (Inl e, log2)
             | (Inr pg_types, log2) \<Rightarrow>
                 (case insert_batches E (insert_sql table_name column_names) column_names
                         pg_types rows 0 log2 of
                    (Inr u, log3) \<Rightarrow>
                      (Inr (), log3 @ [Print (Migrated (length rows) table_name)])
                  | (Inl e, log3) \<Rightarrow> (Inl e, log3 @ [Print (MigrateFailed table_name)]))))"

section \<open>The driver: \<open>main\<close>\<close>

text \<open>The body of the loop \<open>for table in tables\<close>.\<close>

definition process_table :: "env \<Rightarrow> string \<Rightarrow> event list \<Rightarrow> (exn + unit) \<times> event list" where
  "process_table E table log =
     (case get_table_schema E table (log @ [Print (Processing table)]) of
        (Inl e, log1) \<Rightarrow> (Inl e, log1)
      | (Inr schema, log1) \<Rightarrow>
          (case create_postgres_table E table schema log1 of
             (Inl e, log2) \<Rightarrow> (Inl e, log2)
           | (Inr u, log2) \<Rightarrow>
               (case migrate_table_data E table log2 of
                  (Inl e, log3) \<Rightarrow> (Inl e, log3)
                | (Inr u, log3) \<Rightarrow> (Inr (), log3 @ [Print Blank]))))"

text \<open>The loop itself: an exception of one table leaves the loop.\<close>

fun migrate_tables :: "env \<Rightarrow> string list \<Rightarrow> event list \<Rightarrow> (exn + unit) \<times> event list" where
  "migrate_tables E [] log = (Inr (), log)"
| "migrate_tables E (table # tables) log =
     (case process_table E table log of
        (Inl e, log1) \<Rightarrow> (Inl e, log1)
      | (Inr u, log1) \<Rightarrow> migrate_tables E tables log1)"

text \<open>
  The locals of \<open>main\<close> that are bound when the \<open>try\<close> block is left: \<open>sqlite_conn\<close> and
  \<open>sqlite_cursor\<close> once the source is connected, \<open>pg_conn\<close> and \<open>pg_cursor\<close> once the
  target is as well.
\<close>

definition sqlite_bound :: "env \<Rightarrow> bool" where
  "sqlite_bound E = (sqlite_connect E = None)"

definition pg_bound :: "env \<Rightarrow> bool" where
  "pg_bound E = (sqlite_connect E = None \<and> pg_connect E = None)"

text \<open>The \<open>try\<close> block of \<open>main\<close>.\<close>

definition main_try :: "env \<Rightarrow> event list \<Rightarrow> (exn + unit) \<times> event list" where
  "main_try E log =
     (let log1 = log @ [Print ConnectingSqlite, SqliteConnect] in
      case sqlite_connect E of
        Some e \<Rightarrow> (Inl e, log1)
      | None \<Rightarrow>
          (let log2 = log1 @ [Print ConnectingPg, PgConnect] in
           case pg_connect E of
             Some e \<Rightarrow> (Inl e, log2)
           | None \<Rightarrow>
               (case get_sqlite_tables E log2 of
                  (Inl e, log3) \<Rightarrow> (Inl e, log3)
                | (Inr tables, log3) \<Rightarrow>
                    (case migrate_tables E tables
                            (log3 @ [Print (FoundTables (length tables)), Print Blank]) of
                       (Inl e, log4) \<Rightarrow> (Inl e, log4)
                     | (Inr u, log4) \<Rightarrow>
                         (case pg_commit E log4 of
                            Some e \<Rightarrow> (Inl e, log4 @ [Commit])
                          | None \<Rightarrow> (Inr (), log4 @ [Commit, Print Completed]))))))"

text \<open>
  How the process ends: \<open>main\<close> returns, \<open>sys.exit(n)\<close>, or an exception nobody catches,
  on which the interpreter exits with status 1.
\<close>

datatype outcome = Returned | SysExit int | Uncaught exn

fun exit_code :: "outcome \<Rightarrow> int" where
  "exit_code Returned = 0"
| "exit_code (SysExit n) = n"
| "exit_code (Uncaught e) = 1"

text \<open>
  \<open>if pg_conn: pg_conn.rollback()\<close> and \<open>sys.exit(1)\<close>; reading \<open>pg_conn\<close> before it is bound
  raises \<open>UnboundLocalError\<close>.
\<close>

definition rollback_and_exit :: "env \<Rightarrow> event list \<Rightarrow> outcome \<times> event list" where
  "rollback_and_exit E log =
     (if pg_bound E then (SysExit 1, log @ [Rollback]) else (Uncaught UnboundLocalError, log))"

text \<open>The three \<open>except\<close> clauses, in their order.\<close>

definition main_except :: "env \<Rightarrow> exn \<Rightarrow> event list \<Rightarrow> outcome \<times> event list" where
  "main_except E e log =
     (if e = SqliteError then (SysExit 1, log @ [Print SqliteErrorLine])
      else if e = PgError then rollback_and_exit E (log @ [Print PgErrorLine])
      else rollback_and_exit E (log @ [Print UnexpectedErrorLine]))"

text \<open>
  The \<open>finally\<close> clause: it closes what is bound, and reading a local that is not bound
  raises \<open>UnboundLocalError\<close>, which replaces the pending exit.
\<close>

definition main_finally :: "env \<Rightarrow> outcome \<Rightarrow> event list \<Rightarrow> outcome \<times> event list" where
  "main_finally E pending log =
     (if \<not> sqlite_bound E then (Uncaught UnboundLocalError, log)
      else if \<not> pg_bound E then (Uncaught UnboundLocalError, log @ [SqliteClose])
      else (pending, log @ [SqliteClose, PgClose]))"

definition main :: "env \<Rightarrow> outcome \<times> event list" where
  "main E =
     (let log0 = [Print Banner, Print Config, Prompt] in
      if lower (response E) \<notin> set [''yes'', ''y''] then (Returned, log0 @ [Print Cancelled])
      else
        (case main_try E log0 of
           (Inr u, log1) \<Rightarrow> main_finally E Returned log1
         | (Inl e, log1) \<Rightarrow>
             (case main_except E e log1 of (pending, log2) \<Rightarrow> main_finally E pending log2)))"

text \<open>The batches handed to \<open>executemany\<close> in a list of events, in their order.\<close>

fun submitted :: "event list \<Rightarrow> pyval list list list" where
  "submitted [] = []"
| "submitted (ExecuteMany sql b # evs) = b # submitted evs"
| "submitted (ev # evs) = submitted evs"

section \<open>Example databases\<close>

text \<open>
  A source with the table \<open>users(id INTEGER PRIMARY KEY, active BOOLEAN, created DATETIME)\<close>
  and two rows, and a target that accepts every statement and reports the types it
  stores for the three columns.
\<close>

definition users_schema :: "column list" where
  "users_schema =
     [\<lparr>col_id = 0, col_name = ''id'', col_type = ''INTEGER'', not_null = 0,
       default_val = None, pk = 1\<rparr>,
      \<lparr>col_id = 1, col_name = ''active'', col_type = ''BOOLEAN'', not_null = 0,
       default_val = None, pk = 0\<rparr>,
      \<lparr>col_id = 2, col_name = ''created'', col_type = ''DATETIME'', not_null = 0,
       default_val = None, pk = 0\<rparr>]"

definition users_rows :: "pyval list list" where
  "users_rows =
     [[VInt 1, VInt 1, VInt 1700000000000],
      [VInt 2, VInt 0, VInt 1700003600000]]"

text \<open>
  A calendar conversion for the examples: it knows the two instants of \<open>users_rows\<close>, in
  UTC, and raises \<open>OverflowError\<close> on every other value.
\<close>

definition two_instants :: "pyval \<Rightarrow> exn + datetime" where
  "two_instants v =
     (if v = VInt 1700000000000 then Inr (DateTime (Date 2023 11 14) (Time 22 13 20 0))
      else if v = VInt 1700003600000 then Inr (DateTime (Date 2023 11 14) (Time 23 13 20 0))
      else Inl OverflowError)"

text \<open>
  The source answers for the table \<open>users\<close> only. Every other table name gets
  \<open>sqlite3.Error\<close>, as the name \<open>my-table\<close> does in \<open>PRAGMA table_info(my-table)\<close>, which
  is not a statement SQLite can parse.
\<close>

definition users_env :: env where
  "users_env =
     \<lparr>response = ''yes'',
      sqlite_connect = None,
      pg_connect = None,
      list_tables = Inr [''users''],
      table_info = (\<lambda>t. if t = ''users'' then Inr users_schema else Inl SqliteError),
      select_all = (\<lambda>t. if t = ''users'' then Inr ([''id'', ''active'', ''created''], users_rows)
                         else Inl SqliteError),
      pg_execute = (\<lambda>log sql. None),
      pg_column_types = (\<lambda>log t. Inr [(''id'', ''integer''), (''active'', ''boolean''),
                                       (''created'', ''timestamp without time zone'')]),
      pg_executemany = (\<lambda>log sql batch. None),
      pg_commit = (\<lambda>log. None),
      fromtimestamp_ms = two_instants\<rparr>"

text \<open>The same source with the table \<open>users\<close> holding no row.\<close>

definition empty_users_env :: env where
  "empty_users_env =
     users_env\<lparr>select_all := (\<lambda>t. Inr ([''id'', ''active'', ''created''], []))\<rparr>"

text \<open>Two sources with a second table, \<open>my-table\<close>, listed before or after \<open>users\<close>.\<close>

definition bad_first_env :: env where
  "bad_first_env = users_env\<lparr>list_tables := Inr [''my-table'', ''users'']\<rparr>"

definition bad_second_env :: env where
  "bad_second_env = users_env\<lparr>list_tables := Inr [''users'', ''my-table'']\<rparr>"

section \<open>Facts about strings and the type mapper\<close>

lemma py_in_iff_sublist: "py_in k s \<longleftrightarrow> sublist k s"
proof (induction s)
  case Nil
  then show ?case by simp
next
  case (Cons c cs)
  show ?case
  proof (cases k)
    case Nil
    then show ?thesis by simp
  next
    case (Cons a k')
    with Cons.IH show ?thesis by (simp add: sublist_Cons_right)
  qed
qed

lemma first_match_miss:
  "\<forall>kv \<in> set tbl. \<not> py_in (fst kv) s \<Longrightarrow> first_match tbl s = ''TEXT''"
  by (induction tbl s rule: first_match.induct) auto

lemma first_match_hit:
  "\<forall>kv \<in> set pre. \<not> py_in (fst kv) s \<Longrightarrow> py_in k s \<Longrightarrow>
   first_match (pre @ (k, target) # post) s = target"
  by (induction pre s rule: first_match.induct) auto

lemma first_match_range: "first_match tbl s \<in> snd ` set tbl \<union> {''TEXT''}"
  by (induction tbl s rule: first_match.induct) auto

lemmas string_case_defs =
  special_casing_def lower_def upper_char_def lower_char_def ascii_lowercase_def
  ascii_uppercase_def

lemma letters_disjoint: "set ascii_lowercase \<inter> set ascii_uppercase = {}"
  by (simp add: ascii_lowercase_def ascii_uppercase_def)

lemma upper_char_cases:
  "(c \<in> set ascii_lowercase \<and> upper_char c \<in> set ascii_uppercase) \<or> upper_char c = c"
proof (cases "map_of (zip ascii_lowercase ascii_uppercase) c")
  case None
  then show ?thesis by (simp add: upper_char_def)
next
  case (Some u)
  then have "(c, u) \<in> set (zip ascii_lowercase ascii_uppercase)" by (rule map_of_SomeD)
  then have "c \<in> set ascii_lowercase" "u \<in> set ascii_uppercase"
    by (auto dest: set_zip_leftD set_zip_rightD)
  with Some show ?thesis by (simp add: upper_char_def)
qed

lemma upper_char_upper: "c \<in> set ascii_uppercase \<Longrightarrow> upper_char c = c"
  using upper_char_cases [of c] letters_disjoint by auto

lemma upper_char_idem: "upper_char (upper_char c) = upper_char c"
  using upper_char_cases [of c] upper_char_upper by auto

lemma upper_char_eq_iff:
  "x \<notin> set ascii_uppercase \<Longrightarrow> x \<notin> set ascii_lowercase \<Longrightarrow> upper_char c = x \<longleftrightarrow> c = x"
  using upper_char_cases [of c] upper_char_cases [of x] by auto

lemma prefix_map_upper_char:
  "\<forall>x \<in> set src. x \<notin> set ascii_uppercase \<and> x \<notin> set ascii_lowercase \<Longrightarrow>
   prefix src (map upper_char s) \<longleftrightarrow> prefix src s"
proof (induction src arbitrary: s)
  case Nil
  then show ?case by simp
next
  case (Cons x src)
  show ?case
  proof (cases s)
    case Nil
    then show ?thesis by simp
  next
    case (Cons c cs)
    from Cons.prems have "upper_char c = x \<longleftrightarrow> c = x" by (simp add: upper_char_eq_iff)
    moreover from Cons.prems Cons.IH have "prefix src (map upper_char cs) \<longleftrightarrow> prefix src cs"
      by simp
    ultimately show ?thesis using Cons by auto
  qed
qed

lemma upper_at_map_upper_char:
  "\<forall>kv \<in> set tbl. \<forall>x \<in> set (fst kv). x \<notin> set ascii_uppercase \<and> x \<notin> set ascii_lowercase \<Longrightarrow>
   upper_at tbl (map upper_char s) = upper_at tbl s"
  by (induction tbl s rule: upper_at.induct) (simp_all add: prefix_map_upper_char)

lemma special_casing_no_letters:
  "\<forall>kv \<in> set special_casing. \<forall>x \<in> set (fst kv).
     x \<notin> set ascii_uppercase \<and> x \<notin> set ascii_lowercase"
  by (simp add: special_casing_def ascii_lowercase_def ascii_uppercase_def)

lemma upper_map_upper_char: "upper (map upper_char s) = upper s"
proof (induction s rule: upper.induct)
  case 1
  then show ?case by simp
next
  case (2 c cs)
  have ua: "upper_at special_casing (upper_char c # map upper_char cs) =
            upper_at special_casing (c # cs)"
    using upper_at_map_upper_char [OF special_casing_no_letters, of "c # cs"] by simp
  show ?case
  proof (cases "upper_at special_casing (c # cs)")
    case None
    with 2(1) [OF None] ua show ?thesis by (simp add: upper_char_idem)
  next
    case (Some p)
    obtain n dst where p: "p = (n, dst)" by (cases p)
    from 2(2) [OF Some p [symmetric]] have "upper (map upper_char (drop (n - 1) cs)) = upper (drop (n - 1) cs)" .
    with Some p ua show ?thesis by (simp add: drop_map)
  qed
qed

lemma upper_lower_char: "upper_char (lower_char c) = upper_char c"
  unfolding upper_char_def lower_char_def ascii_lowercase_def ascii_uppercase_def
  by (simp split: if_splits)

lemma upper_lower: "upper (lower s) = upper s"
proof -
  have "map upper_char (lower s) = map upper_char s"
    by (simp add: lower_def upper_lower_char)
  then show ?thesis using upper_map_upper_char [of "lower s"] upper_map_upper_char [of s] by simp
qed

lemma upper_at_lead_byte:
  "\<forall>kv \<in> set tbl. fst kv \<noteq> [] \<and> digit7 (hd (fst kv)) \<Longrightarrow> \<not> digit7 c \<Longrightarrow>
   upper_at tbl (c # cs) = None"
proof (induction tbl)
  case Nil
  then show ?case by simp
next
  case (Cons kv tbl)
  obtain src dst where kv: "kv = (src, dst)" by (cases kv)
  with Cons.prems obtain a as where src: "src = a # as" "digit7 a" by (cases src) auto
  with Cons.prems(2) have "a \<noteq> c" by auto
  with src have "\<not> prefix src (c # cs)" by simp
  with Cons kv show ?case by simp
qed

lemma special_casing_lead_bytes:
  "\<forall>kv \<in> set special_casing. fst kv \<noteq> [] \<and> digit7 (hd (fst kv))"
  by (simp add: special_casing_def)

lemma upper_ascii: "\<forall>c \<in> set s. \<not> digit7 c \<Longrightarrow> upper s = map upper_char s"
  by (induction s) (simp_all add: upper_at_lead_byte [OF special_casing_lead_bytes])

lemma keyword_targets:
  "\<forall>kv \<in> set type_mapping.
     sqlite_type_to_postgres (fst kv) = snd kv \<and> sqlite_type_to_postgres (lower (fst kv)) = snd kv"
  by (simp add: type_mapping_def sqlite_type_to_postgres_def upper_lower upper_ascii
        upper_char_def ascii_lowercase_def ascii_uppercase_def del: upper.simps)

lemma type_examples:
  "sqlite_type_to_postgres ''varchar(255)'' = ''VARCHAR''"
  "sqlite_type_to_postgres ''bigint'' = ''TEXT''"
  "sqlite_type_to_postgres [] = ''TEXT''"
  "sqlite_type_to_postgres ([CHR 0xC4, CHR 0xB1] @ ''nteger'') = ''INTEGER''"
  "sqlite_type_to_postgres (''j'' @ [CHR 0xC5, CHR 0xBF] @ ''on'') = ''JSONB''"
  by (simp_all add: type_mapping_def sqlite_type_to_postgres_def string_case_defs)

text \<open>
  C4. \<open>sqlite_type_to_postgres\<close> returns, for every string, a target type of the table or
  the fallback \<open>TEXT\<close> (as a HOL function it is total and gives one output per input). The
  first keyword of the table that occurs in the upper-cased input wins, and when none
  occurs the answer is \<open>TEXT\<close>. The upper-cased text of an ASCII input is the input with
  every letter replaced by its capital, so the search ignores letter case: two inputs
  that differ in the case of ASCII letters only get the same answer, and so do an input
  and its lower-cased text. Every keyword, in capitals or in small letters, gets its own
  target; \<open>varchar(255)\<close> gets \<open>VARCHAR\<close>; \<open>bigint\<close> and the empty string hold no keyword and
  get \<open>TEXT\<close>; and \<open>nteger\<close> after a dotless i (U+0131), which \<open>str.upper\<close> turns into
  \<open>I\<close>, gets \<open>INTEGER\<close>.
\<close>

theorem sqlite_type_to_postgres_first_match:
  "sqlite_type_to_postgres s \<in> snd ` set type_mapping \<union> {''TEXT''} \<and>
   (type_mapping = pre @ (k, target) # post \<and> sublist k (upper s) \<and>
      (\<forall>kv \<in> set pre. \<not> sublist (fst kv) (upper s)) \<longrightarrow>
    sqlite_type_to_postgres s = target) \<and>
   ((\<forall>kv \<in> set type_mapping. \<not> sublist (fst kv) (upper s)) \<longrightarrow>
    sqlite_type_to_postgres s = ''TEXT'') \<and>
   ((\<forall>c \<in> set s. \<not> digit7 c) \<longrightarrow> upper s = map upper_char s) \<and>
   (map upper_char s = map upper_char s' \<longrightarrow>
    sqlite_type_to_postgres s = sqlite_type_to_postgres s') \<and>
   sqlite_type_to_postgres (lower s) = sqlite_type_to_postgres s \<and>
   (\<forall>kv \<in> set type_mapping.
      sqlite_type_to_postgres (fst kv) = snd kv \<and>
      sqlite_type_to_postgres (lower (fst kv)) = snd kv) \<and>
   sqlite_type_to_postgres ''varchar(255)'' = ''VARCHAR'' \<and>
   sqlite_type_to_postgres ''bigint'' = ''TEXT'' \<and>
   sqlite_type_to_postgres [] = ''TEXT'' \<and>
   sqlite_type_to_postgres ([CHR 0xC4, CHR 0xB1] @ ''nteger'') = ''INTEGER''"
proof -
  have c1: "sqlite_type_to_postgres s \<in> snd ` set type_mapping \<union> {''TEXT''}"
    unfolding sqlite_type_to_postgres_def by (rule first_match_range)
  have c2: "type_mapping = pre @ (k, target) # post \<and> sublist k (upper s) \<and>
      (\<forall>kv \<in> set pre. \<not> sublist (fst kv) (upper s)) \<longrightarrow>
    sqlite_type_to_postgres s = target"
  proof
    assume a: "type_mapping = pre @ (k, target) # post \<and> sublist k (upper s) \<and>
      (\<forall>kv \<in> set pre. \<not> sublist (fst kv) (upper s))"
    then have "first_match (pre @ (k, target) # post) (upper s) = target"
      by (intro first_match_hit) (simp_all add: py_in_iff_sublist)
    with a show "sqlite_type_to_postgres s = target"
      by (simp add: sqlite_type_to_postgres_def)
  qed
  have c3: "(\<forall>kv \<in> set type_mapping. \<not> sublist (fst kv) (upper s)) \<longrightarrow>
    sqlite_type_to_postgres s = ''TEXT''"
  proof
    assume "\<forall>kv \<in> set type_mapping. \<not> sublist (fst kv) (upper s)"
    then show "sqlite_type_to_postgres s = ''TEXT''"
      unfolding sqlite_type_to_postgres_def
      by (intro first_match_miss) (simp add: py_in_iff_sublist)
  qed
  have c4: "(\<forall>c \<in> set s. \<not> digit7 c) \<longrightarrow> upper s = map upper_char s"
    using upper_ascii by blast
  have c5: "map upper_char s = map upper_char s' \<longrightarrow>
    sqlite_type_to_postgres s = sqlite_type_to_postgres s'"
  proof
    assume "map upper_char s = map upper_char s'"
    then have "upper s = upper s'"
      using upper_map_upper_char [of s] upper_map_upper_char [of s'] by simp
    then show "sqlite_type_to_postgres s = sqlite_type_to_postgres s'"
      by (simp only: sqlite_type_to_postgres_def)
  qed
  have c6: "sqlite_type_to_postgres (lower s) = sqlite_type_to_postgres s"
    by (simp only: sqlite_type_to_postgres_def upper_lower)
  from c1 c2 c3 c4 c5 c6 keyword_targets type_examples(1-4) show ?thesis
    by (intro conjI)
qed

text \<open>
  The theorem at \<open>DateTime\<close>, an ASCII string: its upper-cased text is \<open>DATETIME\<close>, the
  keywords \<open>DATETIME\<close>, \<open>DATE\<close> and \<open>TIME\<close> all occur in it, and \<open>DATETIME\<close>, the first of
  them in the table, decides.
\<close>

theorem sqlite_type_to_postgres_first_match_witness:
  "upper ''DateTime'' = ''DATETIME'' \<and>
   sublist ''DATETIME'' (upper ''DateTime'') \<and> sublist ''DATE'' (upper ''DateTime'') \<and>
   sublist ''TIME'' (upper ''DateTime'') \<and> sqlite_type_to_postgres ''DateTime'' = ''TIMESTAMP''"
proof -
  let ?pre = "[(''INTEGER'', ''INTEGER''), (''TEXT'', ''TEXT''), (''REAL'', ''REAL''),
               (''BLOB'', ''BYTEA''), (''NUMERIC'', ''NUMERIC''), (''VARCHAR'', ''VARCHAR'')]"
  let ?post = "[(''DATE'', ''DATE''), (''TIME'', ''TIME''), (''BOOLEAN'', ''BOOLEAN''),
                (''JSON'', ''JSONB'')]"
  note inst = sqlite_type_to_postgres_first_match
         [of "''DateTime''" ?pre "''DATETIME''" "''TIMESTAMP''" ?post "''DateTime''"]
  have a: "\<forall>c \<in> set ''DateTime''. \<not> digit7 c" by simp
  from inst a have "upper ''DateTime'' = map upper_char ''DateTime''" by blast
  then have u: "upper ''DateTime'' = ''DATETIME''"
    by (simp add: upper_char_def ascii_lowercase_def ascii_uppercase_def)
  have h1: "type_mapping = ?pre @ (''DATETIME'', ''TIMESTAMP'') # ?post"
    by (simp add: type_mapping_def)
  have h2: "sublist ''DATETIME'' (upper ''DateTime'')"
    unfolding u by simp
  have h3: "\<forall>kv \<in> set ?pre. \<not> sublist (fst kv) (upper ''DateTime'')"
    unfolding u py_in_iff_sublist [symmetric] by simp
  have h4: "sublist ''DATE'' (upper ''DateTime'')" "sublist ''TIME'' (upper ''DateTime'')"
    unfolding u py_in_iff_sublist [symmetric] by simp_all
  from inst h1 h2 h3
  have "sqlite_type_to_postgres ''DateTime'' = ''TIMESTAMP''" by blast
  with u h2 h4 show ?thesis by simp
qed

section \<open>Facts about the value converter\<close>

lemma convert_value_returns: "\<exists>r. convert_value f v t = Inr r"
  by (cases "f v") (simp_all add: convert_value_def try_return_def split: pyval.splits)

text \<open>
  C6. A \<open>None\<close> comes back as \<open>None\<close> at every target type, whatever the calendar
  conversion would do.
\<close>

theorem convert_value_none: "convert_value f VNone t = Inr VNone"
  by (simp add: convert_value_def)

text \<open>
  C3. \<open>convert_value\<close> returns a value for every input and every target type: no
  exception reaches the caller. At the two timestamp types, at \<open>date\<close> and at
  \<open>time without time zone\<close>, an \<open>int\<close> or \<open>float\<close> whose calendar conversion raises comes
  back as it went in.
\<close>

theorem convert_value_never_raises:
  "(\<exists>r. convert_value f v t = Inr r) \<and>
   (t \<in> set [''timestamp without time zone'', ''timestamp with time zone'', ''date'',
              ''time without time zone''] \<and>
    is_int_or_float v \<and> (\<exists>e. f v = Inl e) \<longrightarrow>
    convert_value f v t = Inr v)"
proof (intro conjI impI)
  show "\<exists>r. convert_value f v t = Inr r" by (rule convert_value_returns)
next
  assume a: "t \<in> set [''timestamp without time zone'', ''timestamp with time zone'', ''date'',
              ''time without time zone''] \<and>
    is_int_or_float v \<and> (\<exists>e. f v = Inl e)"
  then obtain e where e: "f v = Inl e" by blast
  from a have t: "t = ''timestamp without time zone'' \<or> t = ''timestamp with time zone'' \<or>
                  t = ''date'' \<or> t = ''time without time zone''"
    by simp
  from a have n: "is_int_or_float v" by simp
  then have nn: "v \<noteq> VNone" by auto
  from t show "convert_value f v t = Inr v"
    using e n nn by (auto simp: convert_value_def try_return_def)
qed

text \<open>
  The theorem at an integer far beyond the years a calendar holds, with a conversion that
  raises \<open>OverflowError\<close> on it, at the type \<open>date\<close>.
\<close>

theorem convert_value_never_raises_witness:
  "is_int_or_float (VInt 99999999999999999999) \<and>
   convert_value (\<lambda>v. Inl OverflowError) (VInt 99999999999999999999) ''date'' =
     Inr (VInt 99999999999999999999)"
  using convert_value_never_raises
          [of "\<lambda>v. Inl OverflowError" "VInt 99999999999999999999" "''date''"]
  by simp



text \<open>
  C10. A cell whose column the target's type dictionary does not hold is converted at the
  type \<open>text\<close>, and comes back unchanged; \<open>dict_get\<close> gives a type for every column name.
\<close>

theorem convert_missing_column_as_text:
  "pg_types name = None \<Longrightarrow>
   dict_get pg_types name ''text'' = ''text'' \<and>
   convert_value f v (dict_get pg_types name ''text'') = Inr v \<and>
   convert_cells f pg_types [(name, v)] = Inr [v]"
  by (simp add: dict_get_def convert_value_def)

text \<open>
  The theorem at a dictionary that knows the column \<open>id\<close> only, and a cell of a column
  \<open>note\<close>.
\<close>

theorem convert_missing_column_as_text_witness:
  "dict_of [(''id'', ''integer'')] ''note'' = None \<and>
   convert_cells (\<lambda>v. Inl OverflowError) (dict_of [(''id'', ''integer'')])
     [(''note'', VInt 7)] = Inr [VInt 7]"
proof -
  have h: "dict_of [(''id'', ''integer'')] ''note'' = None"
    by (simp add: dict_of_def)
  from convert_missing_column_as_text
         [of "dict_of [(''id'', ''integer'')]" "''note''" "\<lambda>v. Inl OverflowError" "VInt 7"] h
  show ?thesis by blast
qed

section \<open>Facts about the data transfer\<close>

declare insert_batches.simps [simp del]

lemma convert_cells_total:
  "\<exists>r. convert_cells f tys zs = Inr r \<and> length r = length zs \<and>
       (\<forall>i<length zs. convert_value f (snd (zs ! i)) (dict_get tys (fst (zs ! i)) ''text'') = Inr (r ! i))"
proof (induction zs)
  case Nil
  then show ?case by simp
next
  case (Cons z zs)
  obtain name v where z: "z = (name, v)" by (cases z)
  obtain cv where cv: "convert_value f v (dict_get tys name ''text'') = Inr cv"
    using convert_value_returns by blast
  from Cons.IH obtain r where r: "convert_cells f tys zs = Inr r" "length r = length zs"
    "\<forall>i<length zs. convert_value f (snd (zs ! i)) (dict_get tys (fst (zs ! i)) ''text'') = Inr (r ! i)"
    by blast
  have "convert_cells f tys (z # zs) = Inr (cv # r)" using z cv r(1) by simp
  moreover have "length (cv # r) = length (z # zs)" using r(2) by simp
  moreover have "\<forall>i<length (z # zs). convert_value f (snd ((z # zs) ! i)) (dict_get tys (fst ((z # zs) ! i)) ''text'') = Inr ((cv # r) ! i)"
  proof (intro allI impI)
    fix i assume "i < length (z # zs)"
    then show "convert_value f (snd ((z # zs) ! i)) (dict_get tys (fst ((z # zs) ! i)) ''text'') = Inr ((cv # r) ! i)"
      using z cv r(3) by (cases i) simp_all
  qed
  ultimately show ?case by blast
qed

lemma convert_row_total: "\<exists>r. convert_row f names tys row = Inr r"
  unfolding convert_row_def using convert_cells_total by blast

lemma convert_batch_total:
  "\<exists>r. convert_batch f names tys rows = Inr r \<and> length r = length rows"
proof (induction rows)
  case Nil
  then show ?case by simp
next
  case (Cons row rows)
  obtain cr where "convert_row f names tys row = Inr cr" using convert_row_total by blast
  moreover from Cons.IH obtain r where "convert_batch f names tys rows = Inr r" "length r = length rows"
    by blast
  ultimately show ?case by simp
qed

lemma convert_batch_append:
  "convert_batch f names tys xs = Inr a \<Longrightarrow> convert_batch f names tys ys = Inr b \<Longrightarrow>
   convert_batch f names tys (xs @ ys) = Inr (a @ b)"
proof (induction xs arbitrary: a)
  case Nil
  then show ?case by simp
next
  case (Cons x xs)
  obtain cr where cr: "convert_row f names tys x = Inr cr" using convert_row_total by blast
  obtain a' where a': "convert_batch f names tys xs = Inr a'" using convert_batch_total by blast
  from Cons.prems(1) cr a' have a: "a = cr # a'" by simp
  from Cons.IH [OF a' Cons.prems(2)] cr show ?case by (simp add: a)
qed

lemma ceil_div_step:
  assumes "0 < b" "0 < (n::nat)"
  shows "(n + (b - 1)) div b = Suc ((n - b + (b - 1)) div b)"
proof -
  define c where "c = b - 1"
  have bc: "b = Suc c" using assms(1) c_def by simp
  have "(n + c) div b = Suc ((n - b + c) div b)"
  proof (cases "b \<le> n")
    case True
    then obtain m where m: "n = m + b" by (metis le_add_diff_inverse2)
    then have nb: "n - b = m" by simp
    have "(n + c) div b = (m + c + b) div b" using m by (simp add: ac_simps)
    also have "\<dots> = (m + c) div b + 1" by (rule div_add_self2) (use assms(1) in simp)
    finally show ?thesis using nb by simp
  next
    case False
    then have z: "n - b = 0" by simp
    have "(n + c) div b = 1"
    proof (rule div_nat_eqI)
      show "b * 1 \<le> n + c" using assms(2) bc by simp
      show "n + c < b * Suc 1" using False bc by simp
    qed
    moreover have "c div b = 0" using bc by simp
    ultimately show ?thesis using z by simp
  qed
  then show ?thesis unfolding c_def .
qed

lemma insert_batches_log:
  "insert_batches E sql names tys rows i log = (r, log') \<Longrightarrow>
   \<exists>bs conv. log' = log @ map (ExecuteMany sql) bs \<and>
     convert_batch (fromtimestamp_ms E) names tys (drop i rows) = Inr conv \<and>
     prefix (concat bs) conv \<and>
     (\<forall>b \<in> set bs. b \<noteq> [] \<and> length b \<le> batch_size) \<and>
     (\<forall>k. Suc k < length bs \<longrightarrow> length (bs ! k) = batch_size) \<and>
     (bs \<noteq> [] \<longleftrightarrow> i < length rows) \<and>
     (r = Inr () \<longrightarrow> concat bs = conv \<and>
        length bs = (length rows - i + (batch_size - 1)) div batch_size) \<and>
     (\<forall>k<length bs. convert_batch (fromtimestamp_ms E) names tys
        (take batch_size (drop (i + k * batch_size) rows)) = Inr (bs ! k))"
proof (induction E sql names tys rows i log arbitrary: r log' rule: insert_batches.induct)
  case (1 E sql names tys rows i log)
  let ?f = "fromtimestamp_ms E"
  show ?case
  proof (cases "i < length rows")
    case False
    with "1.prems" have "r = Inr ()" "log' = log"
      by (simp_all add: insert_batches.simps [of E sql names tys rows i log])
    moreover from False have "drop i rows = []" by simp
    moreover from False have "(length rows - i + (batch_size - 1)) div batch_size = 0"
      by (simp add: batch_size_def)
    ultimately have "log' = log @ map (ExecuteMany sql) [] \<and>
     convert_batch ?f names tys (drop i rows) = Inr [] \<and>
     prefix (concat []) [] \<and>
     (\<forall>b \<in> set []. b \<noteq> [] \<and> length b \<le> batch_size) \<and>
     (\<forall>k. Suc k < length [] \<longrightarrow> length ([] ! k) = batch_size) \<and>
     ([] \<noteq> [] \<longleftrightarrow> i < length rows) \<and>
     (r = Inr () \<longrightarrow> concat [] = [] \<and>
        length [] = (length rows - i + (batch_size - 1)) div batch_size) \<and>
     (\<forall>k<length []. convert_batch ?f names tys
        (take batch_size (drop (i + k * batch_size) rows)) = Inr ([] ! k))"
      using False by simp
    then show ?thesis by blast
  next
    case True
    define batch where "batch = take batch_size (drop i rows)"
    obtain cb where cb: "convert_batch ?f names tys batch = Inr cb" "length cb = length batch"
      using convert_batch_total by blast
    obtain rc where rc: "convert_batch ?f names tys (drop (i + batch_size) rows) = Inr rc"
      using convert_batch_total by blast
    have "drop (i + batch_size) rows = drop batch_size (drop i rows)"
      by (simp add: add.commute)
    then have split: "drop i rows = batch @ drop (i + batch_size) rows"
      unfolding batch_def by (simp only: append_take_drop_id)
    have conv: "convert_batch ?f names tys (drop i rows) = Inr (cb @ rc)"
      unfolding split using cb(1) rc by (rule convert_batch_append)
    have lb: "length batch = min batch_size (length rows - i)"
      unfolding batch_def by simp
    with True have cb_ne: "cb \<noteq> []" and cb_le: "length cb \<le> batch_size"
      using cb(2) by (auto simp: batch_size_def)
    show ?thesis
    proof (cases "pg_executemany E log sql cb")
      case (Some e)
      with "1.prems" True cb(1) have res: "r = Inl e" "log' = log @ [ExecuteMany sql cb]"
        by (simp_all add: insert_batches.simps [of E sql names tys rows i log] batch_def)
      have "log' = log @ map (ExecuteMany sql) [cb] \<and>
         convert_batch ?f names tys (drop i rows) = Inr (cb @ rc) \<and>
         prefix (concat [cb]) (cb @ rc) \<and>
         (\<forall>b \<in> set [cb]. b \<noteq> [] \<and> length b \<le> batch_size) \<and>
         (\<forall>k. Suc k < length [cb] \<longrightarrow> length ([cb] ! k) = batch_size) \<and>
         ([cb] \<noteq> [] \<longleftrightarrow> i < length rows) \<and>
         (r = Inr () \<longrightarrow> concat [cb] = cb @ rc \<and>
            length [cb] = (length rows - i + (batch_size - 1)) div batch_size) \<and>
         (\<forall>k<length [cb]. convert_batch ?f names tys
            (take batch_size (drop (i + k * batch_size) rows)) = Inr ([cb] ! k))"
        using res conv cb_ne cb_le True cb(1) by (simp add: batch_def)
      then show ?thesis by blast
    next
      case None
      with "1.prems" True cb(1)
      have rec: "insert_batches E sql names tys rows (i + batch_size) (log @ [ExecuteMany sql cb]) = (r, log')"
        by (simp add: insert_batches.simps [of E sql names tys rows i log] batch_def)
      from "1.IH" [OF True batch_def cb(1) None rec]
      obtain bs conv' where ih:
        "log' = (log @ [ExecuteMany sql cb]) @ map (ExecuteMany sql) bs"
        "convert_batch ?f names tys (drop (i + batch_size) rows) = Inr conv'"
        "prefix (concat bs) conv'"
        "\<forall>b \<in> set bs. b \<noteq> [] \<and> length b \<le> batch_size"
        "\<forall>k. Suc k < length bs \<longrightarrow> length (bs ! k) = batch_size"
        "bs \<noteq> [] \<longleftrightarrow> i + batch_size < length rows"
        "r = Inr () \<longrightarrow> concat bs = conv' \<and>
           length bs = (length rows - (i + batch_size) + (batch_size - 1)) div batch_size"
        "\<forall>k<length bs. convert_batch ?f names tys
           (take batch_size (drop (i + batch_size + k * batch_size) rows)) = Inr (bs ! k)"
        by blast
      from ih(2) rc have c': "conv' = rc" by simp
      have full: "bs \<noteq> [] \<Longrightarrow> length cb = batch_size"
        using ih(6) cb(2) lb by simp
      have a1: "log' = log @ map (ExecuteMany sql) (cb # bs)" using ih(1) by simp
      have a3: "prefix (concat (cb # bs)) (cb @ rc)" using ih(3) c' by simp
      have a4: "\<forall>b \<in> set (cb # bs). b \<noteq> [] \<and> length b \<le> batch_size"
        using ih(4) cb_ne cb_le by simp
      have a5: "\<forall>k. Suc k < length (cb # bs) \<longrightarrow> length ((cb # bs) ! k) = batch_size"
      proof (intro allI impI)
        fix k assume k: "Suc k < length (cb # bs)"
        show "length ((cb # bs) ! k) = batch_size"
        proof (cases k)
          case 0
          from k have "bs \<noteq> []" by auto
          with full 0 show ?thesis by simp
        next
          case (Suc k')
          with k ih(5) show ?thesis by simp
        qed
      qed
      have a6: "cb # bs \<noteq> [] \<longleftrightarrow> i < length rows" using True by simp
      have cnt: "(length rows - i + (batch_size - 1)) div batch_size =
                 Suc ((length rows - (i + batch_size) + (batch_size - 1)) div batch_size)"
        using ceil_div_step [of batch_size "length rows - i"] True
        by (simp add: batch_size_def)
      have a7: "r = Inr () \<longrightarrow> concat (cb # bs) = cb @ rc \<and>
           length (cb # bs) = (length rows - i + (batch_size - 1)) div batch_size"
      proof
        assume "r = Inr ()"
        with ih(7) c' have x: "concat bs = rc"
          and y: "length bs = (length rows - (i + batch_size) + (batch_size - 1)) div batch_size"
          by simp_all
        from x have x': "concat (cb # bs) = cb @ rc" by simp
        have "length (cb # bs) = Suc (length bs)" by simp
        also have "\<dots> = (length rows - i + (batch_size - 1)) div batch_size"
          unfolding y cnt ..
        finally show "concat (cb # bs) = cb @ rc \<and>
           length (cb # bs) = (length rows - i + (batch_size - 1)) div batch_size"
          using x' by (rule_tac conjI)
      qed
      have a8: "\<forall>k<length (cb # bs). convert_batch ?f names tys
           (take batch_size (drop (i + k * batch_size) rows)) = Inr ((cb # bs) ! k)"
      proof (intro allI impI)
        fix k assume k: "k < length (cb # bs)"
        show "convert_batch ?f names tys
           (take batch_size (drop (i + k * batch_size) rows)) = Inr ((cb # bs) ! k)"
        proof (cases k)
          case 0
          with cb(1) show ?thesis by (simp add: batch_def)
        next
          case (Suc k')
          with k have "k' < length bs" by simp
          with ih(8) have "convert_batch ?f names tys
             (take batch_size (drop (i + batch_size + k' * batch_size) rows)) = Inr (bs ! k')"
            by blast
          moreover have "i + batch_size + k' * batch_size = i + k * batch_size"
            using Suc by simp
          ultimately show ?thesis using Suc by simp
        qed
      qed
      show ?thesis
        by (rule exI [of _ "cb # bs"], rule exI [of _ "cb @ rc"])
           (intro conjI a1 conv a3 a4 a5 a6 a7 a8)
    qed
  qed
qed

section \<open>Facts about the example databases\<close>

lemmas run_defs = main_def main_try_def main_except_def main_finally_def rollback_and_exit_def
  sqlite_bound_def pg_bound_def get_sqlite_tables_def process_table_def get_table_schema_def
  create_postgres_table_def migrate_table_data_def get_postgres_column_types_def

lemma users_env_simps:
  "response users_env = ''yes''"
  "sqlite_connect users_env = None"
  "pg_connect users_env = None"
  "list_tables users_env = Inr [''users'']"
  "table_info users_env t = (if t = ''users'' then Inr users_schema else Inl SqliteError)"
  "select_all users_env t =
     (if t = ''users'' then Inr ([''id'', ''active'', ''created''], users_rows) else Inl SqliteError)"
  "pg_execute users_env log sql = None"
  "pg_column_types users_env log t =
     Inr [(''id'', ''integer''), (''active'', ''boolean''),
          (''created'', ''timestamp without time zone'')]"
  "pg_executemany users_env log sql b = None"
  "pg_commit users_env log = None"
  "fromtimestamp_ms users_env = two_instants"
  by (simp_all add: users_env_def)

lemma users_rows_facts: "users_rows \<noteq> []" "length users_rows = 2"
  by (simp_all add: users_rows_def)

lemma users_insert_batches:
  "insert_batches users_env sql [''id'', ''active'', ''created'']
     (dict_of [(''id'', ''integer''), (''active'', ''boolean''),
               (''created'', ''timestamp without time zone'')]) users_rows 0 log =
   (Inr (), log @ [ExecuteMany sql
      [[VInt 1, VBool True, VDateTime (DateTime (Date 2023 11 14) (Time 22 13 20 0))],
       [VInt 2, VBool False, VDateTime (DateTime (Date 2023 11 14) (Time 23 13 20 0))]]])"
  by (simp add: insert_batches.simps users_rows_def batch_size_def convert_row_def dict_of_def
        dict_get_def convert_value_def try_return_def two_instants_def users_env_simps)

section \<open>Facts about one table\<close>

text \<open>
  C7. A table whose schema is read, whose \<open>CREATE TABLE\<close> the target accepts and whose
  \<open>SELECT *\<close> returns no row: the table is created, the line for an empty table is
  printed, \<open>executemany\<close> is not called, and the table ends without an exception.
\<close>

theorem empty_table_no_insert:
  assumes "table_info E t = Inr schema"
      and "pg_execute E (log @ [Print (Processing t), TableInfo t]) (create_table_sql t schema) = None"
      and "select_all E t = Inr (column_names, [])"
  shows "process_table E t log =
           (Inr (), log @ [Print (Processing t), TableInfo t, Execute (create_table_sql t schema),
                           Print (Created t), SelectAll t, Print (TableEmpty t), Print Blank]) \<and>
         submitted (snd (process_table E t log)) = submitted log"
proof -
  have 1: "process_table E t log =
           (Inr (), log @ [Print (Processing t), TableInfo t, Execute (create_table_sql t schema),
                           Print (Created t), SelectAll t, Print (TableEmpty t), Print Blank])"
    using assms
    by (simp add: process_table_def get_table_schema_def create_postgres_table_def
          migrate_table_data_def)
  have 2: "submitted (xs @ ys) = submitted xs @ submitted ys" for xs ys
    by (induction xs rule: submitted.induct) simp_all
  show ?thesis unfolding 1 by (simp add: 2)
qed

text \<open>The theorem at the table \<open>users\<close> without rows.\<close>

theorem empty_table_no_insert_witness:
  "select_all empty_users_env ''users'' = Inr ([''id'', ''active'', ''created''], []) \<and>
   process_table empty_users_env ''users'' [] =
     (Inr (), [Print (Processing ''users''), TableInfo ''users'',
               Execute (create_table_sql ''users'' users_schema), Print (Created ''users''),
               SelectAll ''users'', Print (TableEmpty ''users''), Print Blank]) \<and>
   submitted (snd (process_table empty_users_env ''users'' [])) = []"
proof -
  have h1: "table_info empty_users_env ''users'' = Inr users_schema"
    by (simp add: empty_users_env_def users_env_simps)
  have h2: "pg_execute empty_users_env ([] @ [Print (Processing ''users''), TableInfo ''users''])
              (create_table_sql ''users'' users_schema) = None"
    by (simp add: empty_users_env_def users_env_simps)
  have h3: "select_all empty_users_env ''users'' = Inr ([''id'', ''active'', ''created''], [])"
    by (simp add: empty_users_env_def)
  from empty_table_no_insert [OF h1 h2 h3] h3 show ?thesis by simp
qed

section \<open>Facts about batches and column order\<close>

text \<open>
  C8. The loop over a non-empty list of rows calls \<open>executemany\<close> on the batches \<open>bs\<close>, in
  this order and on nothing else. Batch \<open>k\<close> is the conversion of the slice
  \<open>rows[100 * k : 100 * k + 100]\<close>; no batch is empty, none has more than 100 rows, and
  every batch but the last has exactly 100. The batches laid end to end are an initial
  part of the converted rows, in their order; when the loop ends without an exception
  they are all the converted rows, in \<open>(len(rows) + 99) div 100\<close> batches.
\<close>

theorem insert_batches_partition:
  assumes "rows \<noteq> []"
      and "insert_batches E sql column_names pg_types rows 0 log = (r, log')"
  shows "\<exists>bs conv. log' = log @ map (ExecuteMany sql) bs \<and>
     convert_batch (fromtimestamp_ms E) column_names pg_types rows = Inr conv \<and>
     bs \<noteq> [] \<and> prefix (concat bs) conv \<and>
     (\<forall>b \<in> set bs. b \<noteq> [] \<and> length b \<le> 100) \<and>
     (\<forall>k. Suc k < length bs \<longrightarrow> length (bs ! k) = 100) \<and>
     (\<forall>k<length bs. convert_batch (fromtimestamp_ms E) column_names pg_types
        (take 100 (drop (k * 100) rows)) = Inr (bs ! k)) \<and>
     (r = Inr () \<longrightarrow> concat bs = conv \<and> length bs = (length rows + 99) div 100)"
proof -
  from insert_batches_log [OF assms(2)] obtain bs conv where f:
    "log' = log @ map (ExecuteMany sql) bs"
    "convert_batch (fromtimestamp_ms E) column_names pg_types (drop 0 rows) = Inr conv"
    "prefix (concat bs) conv"
    "\<forall>b \<in> set bs. b \<noteq> [] \<and> length b \<le> batch_size"
    "\<forall>k. Suc k < length bs \<longrightarrow> length (bs ! k) = batch_size"
    "bs \<noteq> [] \<longleftrightarrow> 0 < length rows"
    "r = Inr () \<longrightarrow> concat bs = conv \<and>
        length bs = (length rows - 0 + (batch_size - 1)) div batch_size"
    "\<forall>k<length bs. convert_batch (fromtimestamp_ms E) column_names pg_types
        (take batch_size (drop (0 + k * batch_size) rows)) = Inr (bs ! k)"
    by blast
  have g2: "convert_batch (fromtimestamp_ms E) column_names pg_types rows = Inr conv"
    using f(2) by simp
  have g3: "bs \<noteq> []" using f(6) assms(1) by simp
  have g5: "\<forall>b \<in> set bs. b \<noteq> [] \<and> length b \<le> 100"
    using f(4) by (simp add: batch_size_def)
  have g6: "\<forall>k. Suc k < length bs \<longrightarrow> length (bs ! k) = 100"
    using f(5) by (simp add: batch_size_def)
  have g7: "\<forall>k<length bs. convert_batch (fromtimestamp_ms E) column_names pg_types
        (take 100 (drop (k * 100) rows)) = Inr (bs ! k)"
    using f(8) by (simp add: batch_size_def)
  have g8: "r = Inr () \<longrightarrow> concat bs = conv \<and> length bs = (length rows + 99) div 100"
    using f(7) by (simp add: batch_size_def)
  show ?thesis
    by (rule exI [of _ bs], rule exI [of _ conv]) (intro conjI f(1) g2 g3 f(3) g5 g6 g7 g8)
qed

text \<open>The theorem at the two rows of \<open>users\<close>: one batch, which holds both converted rows.\<close>

theorem insert_batches_partition_witness:
  "users_rows \<noteq> [] \<and>
   insert_batches users_env (insert_sql ''users'' [''id'', ''active'', ''created''])
     [''id'', ''active'', ''created'']
     (dict_of [(''id'', ''integer''), (''active'', ''boolean''),
               (''created'', ''timestamp without time zone'')]) users_rows 0 [] =
   (Inr (), [ExecuteMany (insert_sql ''users'' [''id'', ''active'', ''created''])
      [[VInt 1, VBool True, VDateTime (DateTime (Date 2023 11 14) (Time 22 13 20 0))],
       [VInt 2, VBool False, VDateTime (DateTime (Date 2023 11 14) (Time 23 13 20 0))]]]) \<and>
   convert_batch two_instants [''id'', ''active'', ''created'']
     (dict_of [(''id'', ''integer''), (''active'', ''boolean''),
               (''created'', ''timestamp without time zone'')]) users_rows =
   Inr [[VInt 1, VBool True, VDateTime (DateTime (Date 2023 11 14) (Time 22 13 20 0))],
        [VInt 2, VBool False, VDateTime (DateTime (Date 2023 11 14) (Time 23 13 20 0))]]"
proof -
  let ?sql = "insert_sql ''users'' [''id'', ''active'', ''created'']"
  let ?names = "[''id'', ''active'', ''created'']"
  let ?tys = "dict_of [(''id'', ''integer''), (''active'', ''boolean''),
               (''created'', ''timestamp without time zone'')]"
  let ?b = "[[VInt 1, VBool True, VDateTime (DateTime (Date 2023 11 14) (Time 22 13 20 0))],
       [VInt 2, VBool False, VDateTime (DateTime (Date 2023 11 14) (Time 23 13 20 0))]]"
  have h1: "users_rows \<noteq> []" by (rule users_rows_facts)
  have h2: "insert_batches users_env ?sql ?names ?tys users_rows 0 [] =
              (Inr (), [ExecuteMany ?sql ?b])"
    using users_insert_batches [of ?sql "[]"] by simp
  from insert_batches_partition [OF h1 h2] obtain bs conv where f:
    "[ExecuteMany ?sql ?b] = [] @ map (ExecuteMany ?sql) bs"
    "convert_batch (fromtimestamp_ms users_env) ?names ?tys users_rows = Inr conv"
    "(Inr () :: exn + unit) = Inr () \<longrightarrow> concat bs = conv \<and> length bs = (length users_rows + 99) div 100"
    by blast
  from f(1) have "bs = [?b]" by (cases bs) auto
  with f(3) have "conv = ?b" by simp
  with f(2) have "convert_batch two_instants ?names ?tys users_rows = Inr ?b"
    by (simp add: users_env_simps)
  with h1 h2 show ?thesis by (intro conjI)
qed

lemma join_Cons: "join sep (x # xs) = x @ concat (map (\<lambda>y. sep @ y) xs)"
  by (induction xs arbitrary: x) simp_all

lemma join_index:
  "join sep xs = concat (map (\<lambda>i. (if i = 0 then [] else sep) @ xs ! i) [0..<length xs])"
proof (cases xs)
  case Nil
  then show ?thesis by simp
next
  case (Cons x ys)
  have "map (\<lambda>y. sep @ y) ys = map (\<lambda>i. sep @ ys ! i) [0..<length ys]"
    by (rule nth_equalityI) simp_all
  then have "join sep (x # ys) = x @ concat (map (\<lambda>i. sep @ ys ! i) [0..<length ys])"
    by (simp only: join_Cons)
  also have "\<dots> = concat (map (\<lambda>i. (if i = 0 then [] else sep) @ (x # ys) ! i)
                              [0..<length (x # ys)])"
    by (simp add: map_upt_Suc del: upt_Suc)
  finally show ?thesis using Cons by simp
qed

lemma insert_sql_columns:
  "insert_sql t column_names =
     ''INSERT INTO '' @ dq @ t @ dq @ '' ('' @
     concat (map (\<lambda>i. (if i = 0 then [] else '', '') @ dq @ column_names ! i @ dq)
                 [0..<length column_names]) @
     '') VALUES ('' @
     concat (map (\<lambda>i. (if i = 0 then [] else '', '') @ ''%s'') [0..<length column_names]) @
     '')''"
proof -
  have 1: "join '', '' (map (\<lambda>col. dq @ col @ dq) column_names) =
           concat (map (\<lambda>i. (if i = 0 then [] else '', '') @ dq @ column_names ! i @ dq)
                 [0..<length column_names])"
    unfolding join_index by (rule arg_cong [of _ _ concat]) simp
  have 2: "join '', '' (replicate (length column_names) ''%s'') =
           concat (map (\<lambda>i. (if i = 0 then [] else '', '') @ ''%s'') [0..<length column_names])"
    unfolding join_index by (rule arg_cong [of _ _ concat]) simp
  show ?thesis unfolding insert_sql_def Let_def 1 2 by simp
qed

lemma create_table_sql_columns:
  "create_table_sql t schema =
     ''CREATE TABLE IF NOT EXISTS '' @ dq @ t @ dq @ '' ('' @
     concat (map (\<lambda>i. (if i = 0 then [] else '', '') @ column_def (schema ! i))
                 [0..<length schema]) @ '');''"
proof -
  have "join '', '' (map column_def schema) =
        concat (map (\<lambda>i. (if i = 0 then [] else '', '') @ column_def (schema ! i))
                 [0..<length schema])"
    unfolding join_index by (rule arg_cong [of _ _ concat]) simp
  then show ?thesis unfolding create_table_sql_def by simp
qed

lemma column_def_starts_with_name: "prefix (dq @ col_name c @ dq) (column_def c)"
  by (simp add: column_def_def Let_def split: option.splits)

lemma convert_row_aligned:
  assumes "length row = length column_names"
      and "convert_row f column_names pg_types row = Inr cr"
  shows "length cr = length column_names \<and>
         (\<forall>i<length column_names.
            convert_value f (row ! i) (dict_get pg_types (column_names ! i) ''text'') =
              Inr (cr ! i))"
proof -
  from convert_cells_total [of f pg_types "zip column_names row"]
  obtain r where r: "convert_cells f pg_types (zip column_names row) = Inr r"
    "length r = length (zip column_names row)"
    "\<forall>i<length (zip column_names row).
       convert_value f (snd (zip column_names row ! i))
         (dict_get pg_types (fst (zip column_names row ! i)) ''text'') = Inr (r ! i)"
    by blast
  from r(1) assms(2) have cr: "cr = r" by (simp add: convert_row_def)
  have l: "length (zip column_names row) = length column_names" using assms(1) by simp
  have "\<forall>i<length column_names.
          convert_value f (row ! i) (dict_get pg_types (column_names ! i) ''text'') = Inr (r ! i)"
  proof (intro allI impI)
    fix i assume i: "i < length column_names"
    with r(3) l have "convert_value f (snd (zip column_names row ! i))
         (dict_get pg_types (fst (zip column_names row ! i)) ''text'') = Inr (r ! i)" by simp
    moreover have "zip column_names row ! i = (column_names ! i, row ! i)"
      using i assms(1) by simp
    ultimately show "convert_value f (row ! i) (dict_get pg_types (column_names ! i) ''text'') =
                       Inr (r ! i)"
      by simp
  qed
  with r(2) l cr show ?thesis by simp
qed

lemma convert_batch_nth:
  "convert_batch f names tys rows = Inr conv \<Longrightarrow>
   length conv = length rows \<and>
   (\<forall>j<length rows. convert_row f names tys (rows ! j) = Inr (conv ! j))"
proof (induction rows arbitrary: conv)
  case Nil
  then show ?case by simp
next
  case (Cons row rows)
  obtain cr where cr: "convert_row f names tys row = Inr cr" using convert_row_total by blast
  obtain c' where c': "convert_batch f names tys rows = Inr c'" using convert_batch_total by blast
  from Cons.prems cr c' have conv: "conv = cr # c'" by simp
  from Cons.IH [OF c'] have ih: "length c' = length rows"
    "\<forall>j<length rows. convert_row f names tys (rows ! j) = Inr (c' ! j)" by simp_all
  have "\<forall>j<length (row # rows). convert_row f names tys ((row # rows) ! j) = Inr (conv ! j)"
  proof (intro allI impI)
    fix j assume "j < length (row # rows)"
    then show "convert_row f names tys ((row # rows) ! j) = Inr (conv ! j)"
      using cr ih(2) conv by (cases j) simp_all
  qed
  with ih(1) conv show ?case by simp
qed

lemma migrate_table_data_result:
  assumes "select_all E t = Inr (column_names, rows)"
      and "rows \<noteq> []"
      and "pg_column_types E (log @ [SelectAll t]) t = Inr tys"
      and "insert_batches E (insert_sql t column_names) column_names (dict_of tys) rows 0
             (log @ [SelectAll t, ColumnTypes t]) = (r3, log3)"
  shows "migrate_table_data E t log =
      (case r3 of Inr u \<Rightarrow> (Inr (), log3 @ [Print (Migrated (length rows) t)])
                | Inl e \<Rightarrow> (Inl e, log3 @ [Print (MigrateFailed t)]))"
proof (cases r3)
  case (Inl e)
  with assms show ?thesis
    by (simp add: migrate_table_data_def get_postgres_column_types_def)
next
  case (Inr u)
  with assms show ?thesis
    by (simp add: migrate_table_data_def get_postgres_column_types_def)
qed

text \<open>
  C9. The data transfer of a table whose rows have one value per column name of the read.
  Every \<open>executemany\<close> of the transfer carries the one insert statement built from the
  column names of the read, and nothing else is sent to the target after the type query.
  With \<open>i\<close> running over the positions of the column names: the statement lists the
  quoted column name at \<open>i\<close> as its \<open>i\<close>-th column and has an \<open>i\<close>-th placeholder, and in
  every row sent, the value at \<open>i\<close> is the conversion of the source row's value at \<open>i\<close> at
  the type the target reports for the column name at \<open>i\<close>. The rows sent are the source
  rows in their order, all of them when the transfer ends without an exception. The
  \<open>CREATE TABLE\<close> statement that \<open>create_postgres_table\<close> executes lists the definition
  of the schema column at \<open>i\<close> as its \<open>i\<close>-th column, and that definition starts with the
  quoted name of the column.
\<close>

theorem column_order_aligned:
  assumes "select_all E t = Inr (column_names, rows)"
      and "rows \<noteq> []"
      and "\<forall>row \<in> set rows. length row = length column_names"
      and "pg_column_types E (log @ [SelectAll t]) t = Inr tys"
      and "migrate_table_data E t log = (r, log')"
  shows "(\<exists>bs line.
           log' = log @ [SelectAll t, ColumnTypes t] @
                  map (ExecuteMany (insert_sql t column_names)) bs @ [Print line] \<and>
           insert_sql t column_names =
             ''INSERT INTO '' @ dq @ t @ dq @ '' ('' @
             concat (map (\<lambda>i. (if i = 0 then [] else '', '') @ dq @ column_names ! i @ dq)
                         [0..<length column_names]) @
             '') VALUES ('' @
             concat (map (\<lambda>i. (if i = 0 then [] else '', '') @ ''%s'')
                         [0..<length column_names]) @
             '')'' \<and>
           length (concat bs) \<le> length rows \<and>
           (r = Inr () \<longrightarrow> length (concat bs) = length rows) \<and>
           (\<forall>j<length (concat bs).
              length (concat bs ! j) = length column_names \<and>
              (\<forall>i<length column_names.
                 convert_value (fromtimestamp_ms E) (rows ! j ! i)
                   (dict_get (dict_of tys) (column_names ! i) ''text'') =
                 Inr (concat bs ! j ! i)))) \<and>
         snd (create_postgres_table E t schema log0) =
           log0 @
           [Execute
              (''CREATE TABLE IF NOT EXISTS '' @ dq @ t @ dq @ '' ('' @
               concat (map (\<lambda>i. (if i = 0 then [] else '', '') @ column_def (schema ! i))
                           [0..<length schema]) @ '');''),
            Print (if pg_execute E log0 (create_table_sql t schema) = None then Created t
                   else CreateFailed t)] \<and>
         (\<forall>i<length schema. prefix (dq @ col_name (schema ! i) @ dq) (column_def (schema ! i)))"
proof -
  let ?f = "fromtimestamp_ms E"
  let ?sql = "insert_sql t column_names"
  let ?log2 = "log @ [SelectAll t, ColumnTypes t]"
  obtain r3 log3 where ib:
    "insert_batches E ?sql column_names (dict_of tys) rows 0 ?log2 = (r3, log3)"
    by (cases "insert_batches E ?sql column_names (dict_of tys) rows 0 ?log2")
  define line where
    "line = (case r3 of Inr u \<Rightarrow> Migrated (length rows) t | Inl e \<Rightarrow> MigrateFailed t)"
  have res: "r = r3 \<and> log' = log3 @ [Print line]"
  proof (cases r3)
    case (Inl e)
    with migrate_table_data_result [OF assms(1,2,4) ib] assms(5) show ?thesis
      by (simp add: line_def)
  next
    case (Inr u)
    with migrate_table_data_result [OF assms(1,2,4) ib] assms(5) show ?thesis
      by (simp add: line_def)
  qed
  from insert_batches_log [OF ib] obtain bs conv where f:
    "log3 = ?log2 @ map (ExecuteMany ?sql) bs"
    "convert_batch ?f column_names (dict_of tys) (drop 0 rows) = Inr conv"
    "prefix (concat bs) conv"
    "r3 = Inr () \<longrightarrow> concat bs = conv \<and>
        length bs = (length rows - 0 + (batch_size - 1)) div batch_size"
    by blast
  from f(2) have cv: "convert_batch ?f column_names (dict_of tys) rows = Inr conv" by simp
  from convert_batch_nth [OF cv] have cn: "length conv = length rows"
    "\<forall>j<length rows. convert_row ?f column_names (dict_of tys) (rows ! j) = Inr (conv ! j)"
    by simp_all
  from f(3) obtain rest where rest: "conv = concat bs @ rest" unfolding prefix_def by blast
  have c1: "log' = log @ [SelectAll t, ColumnTypes t] @ map (ExecuteMany ?sql) bs @ [Print line]"
    using res f(1) by simp
  have c3: "length (concat bs) \<le> length rows" using rest cn(1) by simp
  have c4: "r = Inr () \<longrightarrow> length (concat bs) = length rows"
  proof
    assume "r = Inr ()"
    with res have "r3 = Inr ()" by simp
    with f(4) have "concat bs = conv" by simp
    with cn(1) show "length (concat bs) = length rows" by simp
  qed
  have c5: "\<forall>j<length (concat bs).
              length (concat bs ! j) = length column_names \<and>
              (\<forall>i<length column_names.
                 convert_value ?f (rows ! j ! i)
                   (dict_get (dict_of tys) (column_names ! i) ''text'') =
                 Inr (concat bs ! j ! i))"
  proof (intro allI impI)
    fix j assume j: "j < length (concat bs)"
    with c3 have jr: "j < length rows" by simp
    then have "rows ! j \<in> set rows" by simp
    with assms(3) have len: "length (rows ! j) = length column_names" by blast
    from cn(2) jr have "convert_row ?f column_names (dict_of tys) (rows ! j) = Inr (conv ! j)"
      by blast
    moreover have "conv ! j = concat bs ! j" using rest j by (simp add: nth_append)
    ultimately have "convert_row ?f column_names (dict_of tys) (rows ! j) = Inr (concat bs ! j)"
      by simp
    from convert_row_aligned [OF len this]
    show "length (concat bs ! j) = length column_names \<and>
              (\<forall>i<length column_names.
                 convert_value ?f (rows ! j ! i)
                   (dict_get (dict_of tys) (column_names ! i) ''text'') =
                 Inr (concat bs ! j ! i))" .
  qed
  have transfer: "\<exists>bs line.
           log' = log @ [SelectAll t, ColumnTypes t] @
                  map (ExecuteMany (insert_sql t column_names)) bs @ [Print line] \<and>
           insert_sql t column_names =
             ''INSERT INTO '' @ dq @ t @ dq @ '' ('' @
             concat (map (\<lambda>i. (if i = 0 then [] else '', '') @ dq @ column_names ! i @ dq)
                         [0..<length column_names]) @
             '') VALUES ('' @
             concat (map (\<lambda>i. (if i = 0 then [] else '', '') @ ''%s'')
                         [0..<length column_names]) @
             '')'' \<and>
           length (concat bs) \<le> length rows \<and>
           (r = Inr () \<longrightarrow> length (concat bs) = length rows) \<and>
           (\<forall>j<length (concat bs).
              length (concat bs ! j) = length column_names \<and>
              (\<forall>i<length column_names.
                 convert_value (fromtimestamp_ms E) (rows ! j ! i)
                   (dict_get (dict_of tys) (column_names ! i) ''text'') =
                 Inr (concat bs ! j ! i)))"
    by (rule exI [of _ bs], rule exI [of _ line])
       (intro conjI c1 insert_sql_columns c3 c4 c5)
  have ddl: "snd (create_postgres_table E t schema log0) =
           log0 @
           [Execute
              (''CREATE TABLE IF NOT EXISTS '' @ dq @ t @ dq @ '' ('' @
               concat (map (\<lambda>i. (if i = 0 then [] else '', '') @ column_def (schema ! i))
                           [0..<length schema]) @ '');''),
            Print (if pg_execute E log0 (create_table_sql t schema) = None then Created t
                   else CreateFailed t)]"
    unfolding create_table_sql_columns [symmetric]
    by (cases "pg_execute E log0 (create_table_sql t schema)")
       (simp_all add: create_postgres_table_def)
  have names: "\<forall>i<length schema.
                 prefix (dq @ col_name (schema ! i) @ dq) (column_def (schema ! i))"
    using column_def_starts_with_name by blast
  from transfer ddl names show ?thesis by (intro conjI)
qed

text \<open>
  The theorem at the table \<open>users\<close>: the statements as they are sent, and two of the
  converted cells, found at the positions of their columns.
\<close>

theorem column_order_aligned_witness:
  "select_all users_env ''users'' = Inr ([''id'', ''active'', ''created''], users_rows) \<and>
   migrate_table_data users_env ''users'' [] =
     (Inr (),
      [SelectAll ''users'', ColumnTypes ''users'',
       ExecuteMany
         (''INSERT INTO '' @ dq @ ''users'' @ dq @ '' ('' @ dq @ ''id'' @ dq @ '', '' @
          dq @ ''active'' @ dq @ '', '' @ dq @ ''created'' @ dq @ '') VALUES (%s, %s, %s)'')
         [[VInt 1, VBool True, VDateTime (DateTime (Date 2023 11 14) (Time 22 13 20 0))],
          [VInt 2, VBool False, VDateTime (DateTime (Date 2023 11 14) (Time 23 13 20 0))]],
       Print (Migrated 2 ''users'')]) \<and>
   snd (create_postgres_table users_env ''users'' users_schema []) =
     [Execute
        (''CREATE TABLE IF NOT EXISTS '' @ dq @ ''users'' @ dq @ '' ('' @
         dq @ ''id'' @ dq @ '' INTEGER PRIMARY KEY, '' @
         dq @ ''active'' @ dq @ '' BOOLEAN, '' @
         dq @ ''created'' @ dq @ '' TIMESTAMP);''),
      Print (Created ''users'')] \<and>
   (\<exists>bs. snd (migrate_table_data users_env ''users'' []) =
           [SelectAll ''users'', ColumnTypes ''users''] @
           map (ExecuteMany (insert_sql ''users'' [''id'', ''active'', ''created''])) bs @
           [Print (Migrated 2 ''users'')] \<and>
         concat bs ! 1 ! 1 = VBool False \<and>
         concat bs ! 0 ! 2 = VDateTime (DateTime (Date 2023 11 14) (Time 22 13 20 0)))"
proof -
  let ?names = "[''id'', ''active'', ''created'']"
  let ?tys = "[(''id'', ''integer''), (''active'', ''boolean''),
               (''created'', ''timestamp without time zone'')]"
  let ?b = "[[VInt 1, VBool True, VDateTime (DateTime (Date 2023 11 14) (Time 22 13 20 0))],
             [VInt 2, VBool False, VDateTime (DateTime (Date 2023 11 14) (Time 23 13 20 0))]]"
  have h1: "select_all users_env ''users'' = Inr (?names, users_rows)"
    by (simp add: users_env_simps)
  have h2: "users_rows \<noteq> []" by (rule users_rows_facts)
  have h3: "\<forall>row \<in> set users_rows. length row = length ?names"
    by (simp add: users_rows_def)
  have h4: "pg_column_types users_env ([] @ [SelectAll ''users'']) ''users'' = Inr ?tys"
    by (simp add: users_env_simps)
  have sql: "insert_sql ''users'' ?names =
     ''INSERT INTO '' @ dq @ ''users'' @ dq @ '' ('' @ dq @ ''id'' @ dq @ '', '' @
     dq @ ''active'' @ dq @ '', '' @ dq @ ''created'' @ dq @ '') VALUES (%s, %s, %s)''"
    by (simp add: insert_sql_def)
  have m: "migrate_table_data users_env ''users'' [] =
     (Inr (), [SelectAll ''users'', ColumnTypes ''users'',
               ExecuteMany (insert_sql ''users'' ?names) ?b, Print (Migrated 2 ''users'')])"
    by (simp add: migrate_table_data_def get_postgres_column_types_def users_env_simps
          users_rows_facts users_insert_batches)
  note inst = column_order_aligned [OF h1 h2 h3 h4 m, of users_schema "[]"]
  have cd: "map column_def users_schema =
              [dq @ ''id'' @ dq @ '' INTEGER PRIMARY KEY'',
               dq @ ''active'' @ dq @ '' BOOLEAN'',
               dq @ ''created'' @ dq @ '' TIMESTAMP'']"
    by (simp add: users_schema_def column_def_def sqlite_type_to_postgres_def type_mapping_def
          upper_ascii upper_char_def ascii_lowercase_def ascii_uppercase_def del: upper.simps)
  have ddl: "snd (create_postgres_table users_env ''users'' users_schema []) =
     [Execute
        (''CREATE TABLE IF NOT EXISTS '' @ dq @ ''users'' @ dq @ '' ('' @
         dq @ ''id'' @ dq @ '' INTEGER PRIMARY KEY, '' @
         dq @ ''active'' @ dq @ '' BOOLEAN, '' @
         dq @ ''created'' @ dq @ '' TIMESTAMP);''),
      Print (Created ''users'')]"
    using inst [THEN conjunct2, THEN conjunct1]
    by (simp add: users_env_simps upt_rec [of 0] upt_rec [of 1] upt_rec [of 2] cd [simplified]
          users_schema_def column_def_def sqlite_type_to_postgres_def type_mapping_def
          upper_ascii upper_char_def ascii_lowercase_def ascii_uppercase_def del: upper.simps)
  from inst [THEN conjunct1] obtain bs line where f:
    "[SelectAll ''users'', ColumnTypes ''users'',
      ExecuteMany (insert_sql ''users'' ?names) ?b, Print (Migrated 2 ''users'')] =
     [] @ [SelectAll ''users'', ColumnTypes ''users''] @
     map (ExecuteMany (insert_sql ''users'' ?names)) bs @ [Print line]"
    "\<forall>j<length (concat bs).
       length (concat bs ! j) = length ?names \<and>
       (\<forall>i<length ?names.
          convert_value (fromtimestamp_ms users_env) (users_rows ! j ! i)
            (dict_get (dict_of ?tys) (?names ! i) ''text'') = Inr (concat bs ! j ! i))"
    "(Inr () :: exn + unit) = Inr () \<longrightarrow> length (concat bs) = length users_rows"
    by blast
  from f(1) have bl: "map (ExecuteMany (insert_sql ''users'' ?names)) bs @ [Print line] =
       [ExecuteMany (insert_sql ''users'' ?names) ?b, Print (Migrated 2 ''users'')]" by simp
  then have line: "line = Migrated 2 ''users''" and bs1: "map (ExecuteMany (insert_sql ''users'' ?names)) bs =
       [ExecuteMany (insert_sql ''users'' ?names) ?b]"
    by (auto simp: append_eq_Cons_conv Cons_eq_append_conv)
  from f(3) have len: "length (concat bs) = 2" by (simp add: users_rows_facts)
  have i1: "(1::nat) < length (concat bs)" "(0::nat) < length (concat bs)" using len by simp_all
  have k: "(1::nat) < length ?names" "(2::nat) < length ?names" by simp_all
  have v1: "convert_value (fromtimestamp_ms users_env) (users_rows ! 1 ! 1)
            (dict_get (dict_of ?tys) (?names ! 1) ''text'') = Inr (concat bs ! 1 ! 1)"
    using f(2) [rule_format, OF i1(1), THEN conjunct2, rule_format, OF k(1)] .
  have v2: "convert_value (fromtimestamp_ms users_env) (users_rows ! 0 ! 2)
            (dict_get (dict_of ?tys) (?names ! 2) ''text'') = Inr (concat bs ! 0 ! 2)"
    using f(2) [rule_format, OF i1(2), THEN conjunct2, rule_format, OF k(2)] .
  have e1: "concat bs ! 1 ! 1 = VBool False"
    using v1 by (simp add: users_rows_def users_env_simps dict_of_def dict_get_def
                   convert_value_def)
  have e2: "concat bs ! 0 ! 2 = VDateTime (DateTime (Date 2023 11 14) (Time 22 13 20 0))"
    using v2 by (simp add: users_rows_def users_env_simps dict_of_def dict_get_def
                   convert_value_def try_return_def two_instants_def)
  have "snd (migrate_table_data users_env ''users'' []) =
           [SelectAll ''users'', ColumnTypes ''users''] @
           map (ExecuteMany (insert_sql ''users'' ?names)) bs @ [Print (Migrated 2 ''users'')]"
    unfolding m bs1 by simp
  with e1 e2 have ex: "\<exists>bs. snd (migrate_table_data users_env ''users'' []) =
           [SelectAll ''users'', ColumnTypes ''users''] @
           map (ExecuteMany (insert_sql ''users'' ?names)) bs @ [Print (Migrated 2 ''users'')] \<and>
         concat bs ! 1 ! 1 = VBool False \<and>
         concat bs ! 0 ! 2 = VDateTime (DateTime (Date 2023 11 14) (Time 22 13 20 0))"
    by blast
  from h1 m [unfolded sql] ddl ex show ?thesis by (intro conjI)
qed

section \<open>Facts about the driver\<close>

lemma process_table_introspection_fails:
  "table_info E t = Inl e \<Longrightarrow>
   process_table E t log = (Inl e, log @ [Print (Processing t), TableInfo t])"
  by (simp add: process_table_def get_table_schema_def)

lemma migrate_tables_append:
  "migrate_tables E (xs @ ys) log =
     (case migrate_tables E xs log of
        (Inl e, log1) \<Rightarrow> (Inl e, log1)
      | (Inr u, log1) \<Rightarrow> migrate_tables E ys log1)"
  by (induction xs arbitrary: log) (auto split: prod.splits sum.splits)

lemma insert_batches_no_commit:
  assumes "insert_batches E sql names tys rows i log = (r, log')"
  shows "\<exists>new. log' = log @ new \<and> Commit \<notin> set new"
proof -
  from insert_batches_log [OF assms] obtain bs where "log' = log @ map (ExecuteMany sql) bs"
    by blast
  moreover have "Commit \<notin> set (map (ExecuteMany sql) bs)" by auto
  ultimately show ?thesis by blast
qed

lemma migrate_table_data_no_commit:
  assumes "migrate_table_data E t log = (r, log')"
  shows "\<exists>new. log' = log @ new \<and> Commit \<notin> set new"
proof (cases "select_all E t")
  case (Inl e)
  with assms have "log' = log @ [SelectAll t]" by (simp add: migrate_table_data_def)
  then show ?thesis by simp
next
  case (Inr p)
  obtain names rows where p: "p = (names, rows)" by (cases p)
  show ?thesis
  proof (cases "rows = []")
    case True
    with assms Inr p have "log' = log @ [SelectAll t, Print (TableEmpty t)]"
      by (simp add: migrate_table_data_def)
    then show ?thesis by simp
  next
    case False
    show ?thesis
    proof (cases "pg_column_types E (log @ [SelectAll t]) t")
      case (Inl e)
      with assms Inr p False have "log' = log @ [SelectAll t, ColumnTypes t]"
        by (simp add: migrate_table_data_def get_postgres_column_types_def)
      then show ?thesis by simp
    next
      case tys: (Inr tys)
      obtain r3 log3 where ib: "insert_batches E (insert_sql t names) names (dict_of tys) rows 0
          (log @ [SelectAll t, ColumnTypes t]) = (r3, log3)"
        by (cases "insert_batches E (insert_sql t names) names (dict_of tys) rows 0
          (log @ [SelectAll t, ColumnTypes t])")
      from insert_batches_no_commit [OF ib] obtain new where
        new: "log3 = (log @ [SelectAll t, ColumnTypes t]) @ new" "Commit \<notin> set new" by blast
      from assms Inr p False tys ib
      have "log' = log3 @ [Print (Migrated (length rows) t)] \<or> log' = log3 @ [Print (MigrateFailed t)]"
        by (cases r3) (auto simp: migrate_table_data_def get_postgres_column_types_def)
      then obtain m where "log' = log3 @ [Print m]" by blast
      with new have "log' = log @ ([SelectAll t, ColumnTypes t] @ new @ [Print m])"
        "Commit \<notin> set ([SelectAll t, ColumnTypes t] @ new @ [Print m])" by simp_all
      then show ?thesis by blast
    qed
  qed
qed

lemma process_table_no_commit:
  assumes "process_table E t log = (r, log')"
  shows "\<exists>new. log' = log @ new \<and> Commit \<notin> set new"
proof (cases "table_info E t")
  case (Inl e)
  with assms have "log' = log @ [Print (Processing t), TableInfo t]"
    by (simp add: process_table_introspection_fails)
  then show ?thesis by simp
next
  case (Inr schema)
  let ?l1 = "log @ [Print (Processing t), TableInfo t]"
  show ?thesis
  proof (cases "pg_execute E ?l1 (create_table_sql t schema)")
    case (Some e)
    with assms Inr have "log' = log @ [Print (Processing t), TableInfo t,
        Execute (create_table_sql t schema), Print (CreateFailed t)]"
      by (simp add: process_table_def get_table_schema_def create_postgres_table_def)
    then show ?thesis by simp
  next
    case None
    let ?l2 = "?l1 @ [Execute (create_table_sql t schema), Print (Created t)]"
    obtain r3 log3 where md: "migrate_table_data E t ?l2 = (r3, log3)"
      by (cases "migrate_table_data E t ?l2")
    from migrate_table_data_no_commit [OF md] obtain new where
      new: "log3 = ?l2 @ new" "Commit \<notin> set new" by blast
    from assms Inr None md have "log' = log3 \<or> log' = log3 @ [Print Blank]"
      by (cases r3) (auto simp: process_table_def get_table_schema_def create_postgres_table_def)
    then obtain tl where tl: "log' = log3 @ tl" "Commit \<notin> set tl" by auto
    with new have "log' = log @ ([Print (Processing t), TableInfo t,
        Execute (create_table_sql t schema), Print (Created t)] @ new @ tl)"
      "Commit \<notin> set ([Print (Processing t), TableInfo t,
        Execute (create_table_sql t schema), Print (Created t)] @ new @ tl)" by simp_all
    then show ?thesis by blast
  qed
qed

lemma migrate_tables_no_commit:
  "migrate_tables E ts log = (r, log') \<Longrightarrow> \<exists>new. log' = log @ new \<and> Commit \<notin> set new"
proof (induction ts arbitrary: log)
  case Nil
  then show ?case by simp
next
  case (Cons t ts)
  obtain r1 log1 where pt: "process_table E t log = (r1, log1)"
    by (cases "process_table E t log")
  from process_table_no_commit [OF pt] obtain n1 where n1: "log1 = log @ n1" "Commit \<notin> set n1"
    by blast
  show ?case
  proof (cases r1)
    case (Inl e)
    with Cons.prems pt have "log' = log1" by simp
    with n1 show ?thesis by blast
  next
    case (Inr u)
    with Cons.prems pt have "migrate_tables E ts log1 = (r, log')" by simp
    from Cons.IH [OF this] obtain n2 where "log' = log1 @ n2" "Commit \<notin> set n2" by blast
    with n1 have "log' = log @ (n1 @ n2)" "Commit \<notin> set (n1 @ n2)" by simp_all
    then show ?thesis by blast
  qed
qed

lemma bad_first_env_simps:
  "response bad_first_env = ''yes''"
  "sqlite_connect bad_first_env = None"
  "pg_connect bad_first_env = None"
  "list_tables bad_first_env = Inr [''my-table'', ''users'']"
  "table_info bad_first_env = table_info users_env"
  "select_all bad_first_env = select_all users_env"
  "pg_execute bad_first_env = pg_execute users_env"
  "pg_column_types bad_first_env = pg_column_types users_env"
  "pg_executemany bad_first_env = pg_executemany users_env"
  "pg_commit bad_first_env = pg_commit users_env"
  "fromtimestamp_ms bad_first_env = fromtimestamp_ms users_env"
  by (simp_all add: bad_first_env_def users_env_simps)

lemma bad_second_env_simps:
  "response bad_second_env = ''yes''"
  "sqlite_connect bad_second_env = None"
  "pg_connect bad_second_env = None"
  "list_tables bad_second_env = Inr [''users'', ''my-table'']"
  "table_info bad_second_env = table_info users_env"
  "select_all bad_second_env = select_all users_env"
  "pg_execute bad_second_env = pg_execute users_env"
  "pg_column_types bad_second_env = pg_column_types users_env"
  "pg_executemany bad_second_env = pg_executemany users_env"
  "pg_commit bad_second_env = pg_commit users_env"
  "fromtimestamp_ms bad_second_env = fromtimestamp_ms users_env"
  by (simp_all add: bad_second_env_def users_env_simps)

lemma bad_second_insert_batches:
  "insert_batches bad_second_env sql [''id'', ''active'', ''created'']
     (dict_of [(''id'', ''integer''), (''active'', ''boolean''),
               (''created'', ''timestamp without time zone'')]) users_rows 0 log =
   (Inr (), log @ [ExecuteMany sql
      [[VInt 1, VBool True, VDateTime (DateTime (Date 2023 11 14) (Time 22 13 20 0))],
       [VInt 2, VBool False, VDateTime (DateTime (Date 2023 11 14) (Time 23 13 20 0))]]])"
  by (simp add: insert_batches.simps users_rows_def batch_size_def convert_row_def dict_of_def
        dict_get_def convert_value_def try_return_def two_instants_def bad_second_env_simps
        users_env_simps)

text \<open>
  What the three handlers of \<open>main\<close> share and where they differ: every exception of the
  \<open>try\<close> block ends the process with status 1; an exception other than \<open>sqlite3.Error\<close>
  is followed by \<open>rollback\<close> when the target connection exists; and \<open>commit\<close> is called
  only when the loop over all the tables has ended without an exception.
\<close>

lemma main_exception_exit_code:
  assumes "lower (response E) \<in> set [''yes'', ''y'']"
      and "main_try E [Print Banner, Print Config, Prompt] = (Inl e, log1)"
  shows "exit_code (fst (main E)) = 1"
  using assms
  by (simp add: main_def main_except_def rollback_and_exit_def main_finally_def)

lemma main_target_error_rolls_back:
  assumes "lower (response E) \<in> set [''yes'', ''y'']"
      and "main_try E [Print Banner, Print Config, Prompt] = (Inl e, log1)"
      and "e \<noteq> SqliteError"
      and "pg_bound E"
  shows "\<exists>line. main E = (SysExit 1, log1 @ [Print line, Rollback, SqliteClose, PgClose])"
  using assms
  by (simp add: main_def main_except_def rollback_and_exit_def main_finally_def
        sqlite_bound_def pg_bound_def)

lemma main_try_commit:
  assumes "main_try E log = (r, log')" and "Commit \<in> set log'" and "Commit \<notin> set log"
  shows "\<exists>tables l l'. list_tables E = Inr tables \<and> migrate_tables E tables l = (Inr (), l')"
proof (cases "sqlite_connect E")
  case (Some e)
  with assms show ?thesis by (auto simp: main_try_def)
next
  case None
  note sc = None
  show ?thesis
  proof (cases "pg_connect E")
    case (Some e)
    with assms sc show ?thesis by (auto simp: main_try_def)
  next
    case None
    note pc = None
    show ?thesis
    proof (cases "list_tables E")
      case (Inl e)
      with assms sc pc show ?thesis by (auto simp: main_try_def get_sqlite_tables_def)
    next
      case (Inr tables)
      let ?l = "log @ [Print ConnectingSqlite, SqliteConnect, Print ConnectingPg, PgConnect,
                       ListTables, Print (FoundTables (length tables)), Print Blank]"
      obtain r4 l4 where mt: "migrate_tables E tables ?l = (r4, l4)"
        by (cases "migrate_tables E tables ?l")
      show ?thesis
      proof (cases r4)
        case (Inl e)
        from migrate_tables_no_commit [OF mt] obtain new where
          "l4 = ?l @ new" "Commit \<notin> set new" by blast
        with assms(3) have "Commit \<notin> set l4" by simp
        moreover from assms(1) sc pc Inr mt Inl have "log' = l4"
          by (simp add: main_try_def get_sqlite_tables_def)
        ultimately show ?thesis using assms(2) by simp
      next
        case r: (Inr u)
        with mt have "migrate_tables E tables ?l = (Inr (), l4)" by simp
        with Inr show ?thesis by blast
      qed
    qed
  qed
qed

lemma main_commit_after_all_tables:
  assumes "Commit \<in> set (snd (main E))"
  shows "\<exists>tables l l'. list_tables E = Inr tables \<and> migrate_tables E tables l = (Inr (), l')"
proof -
  obtain r log1 where mt: "main_try E [Print Banner, Print Config, Prompt] = (r, log1)"
    by (cases "main_try E [Print Banner, Print Config, Prompt]")
  have "Commit \<in> set log1"
  proof (cases "lower (response E) \<in> set [''yes'', ''y'']")
    case False
    with assms show ?thesis by (simp add: main_def)
  next
    case True
    with assms mt show ?thesis
      by (cases r)
         (auto simp: main_def main_except_def rollback_and_exit_def main_finally_def
               split: if_splits)
  qed
  from main_try_commit [OF mt this] show ?thesis by simp
qed

text \<open>
  C1, as the code has it. When the run reaches a table whose \<open>PRAGMA table_info\<close> raises,
  the loop over the tables ends there with that exception: nothing is done for the
  tables after it, \<open>commit\<close> is never called, and the process exits with status 1. After
  the failed query the run only prints the error line, may roll back, and closes the
  connections.
\<close>

theorem introspection_failure_aborts_run:
  assumes "lower (response E) \<in> set [''yes'', ''y'']"
      and "sqlite_connect E = None"
      and "pg_connect E = None"
      and "list_tables E = Inr (pre @ t # rest)"
      and "log0 = [Print Banner, Print Config, Prompt, Print ConnectingSqlite, SqliteConnect,
                   Print ConnectingPg, PgConnect, ListTables,
                   Print (FoundTables (length (pre @ t # rest))), Print Blank]"
      and "migrate_tables E pre log0 = (Inr (), log1)"
      and "table_info E t = Inl e"
  shows "migrate_tables E (pre @ t # rest) log0 =
           (Inl e, log1 @ [Print (Processing t), TableInfo t]) \<and>
         exit_code (fst (main E)) = 1 \<and>
         Commit \<notin> set (snd (main E)) \<and>
         (\<exists>tail. snd (main E) = log1 @ [Print (Processing t), TableInfo t] @ tail \<and>
            set tail \<subseteq> {Print SqliteErrorLine, Print PgErrorLine, Print UnexpectedErrorLine,
                          Rollback, SqliteClose, PgClose})"
proof -
  have loop: "migrate_tables E (pre @ t # rest) log0 =
           (Inl e, log1 @ [Print (Processing t), TableInfo t])"
    using assms(6,7) by (simp add: migrate_tables_append process_table_introspection_fails)
  have body: "main_try E [Print Banner, Print Config, Prompt] =
           (Inl e, log1 @ [Print (Processing t), TableInfo t])"
    using assms(2,3,4) loop [unfolded assms(5)]
    by (simp add: main_try_def get_sqlite_tables_def)
  from migrate_tables_no_commit [OF assms(6)] obtain new where
    new: "log1 = log0 @ new" "Commit \<notin> set new" by blast
  then have nc: "Commit \<notin> set log1" using assms(5) by simp
  define handler where "handler =
    (if e = SqliteError then [Print SqliteErrorLine]
     else if e = PgError then [Print PgErrorLine, Rollback]
     else [Print UnexpectedErrorLine, Rollback])"
  have m: "main E = (SysExit 1, log1 @ [Print (Processing t), TableInfo t] @ handler @
                       [SqliteClose, PgClose])"
    using assms(1,2,3) body
    by (simp add: main_def main_except_def rollback_and_exit_def main_finally_def
          sqlite_bound_def pg_bound_def handler_def)
  have h: "set handler \<subseteq> {Print SqliteErrorLine, Print PgErrorLine, Print UnexpectedErrorLine,
                          Rollback}" "Commit \<notin> set handler"
    by (auto simp: handler_def)
  have c2: "exit_code (fst (main E)) = 1" unfolding m by simp
  have c3: "Commit \<notin> set (snd (main E))" unfolding m using nc h(2) by simp
  have c4: "\<exists>tail. snd (main E) = log1 @ [Print (Processing t), TableInfo t] @ tail \<and>
            set tail \<subseteq> {Print SqliteErrorLine, Print PgErrorLine, Print UnexpectedErrorLine,
                          Rollback, SqliteClose, PgClose}"
  proof (rule exI [of _ "handler @ [SqliteClose, PgClose]"], rule conjI)
    show "snd (main E) = log1 @ [Print (Processing t), TableInfo t] @ handler @ [SqliteClose, PgClose]"
      unfolding m by simp
    show "set (handler @ [SqliteClose, PgClose]) \<subseteq>
            {Print SqliteErrorLine, Print PgErrorLine, Print UnexpectedErrorLine,
             Rollback, SqliteClose, PgClose}"
      using h(1) by auto
  qed
  from loop c2 c3 c4 show ?thesis by (intro conjI)
qed

text \<open>
  The theorem at the source that lists \<open>my-table\<close> before \<open>users\<close>: the loop raises at
  \<open>my-table\<close> and \<open>users\<close> is not migrated.
\<close>

theorem introspection_failure_aborts_run_witness:
  "table_info bad_first_env ''my-table'' = Inl SqliteError \<and>
   list_tables bad_first_env = Inr ([] @ ''my-table'' # [''users'']) \<and>
   migrate_tables bad_first_env ([] @ ''my-table'' # [''users''])
     [Print Banner, Print Config, Prompt, Print ConnectingSqlite, SqliteConnect,
      Print ConnectingPg, PgConnect, ListTables, Print (FoundTables 2), Print Blank] =
     (Inl SqliteError,
      [Print Banner, Print Config, Prompt, Print ConnectingSqlite, SqliteConnect,
       Print ConnectingPg, PgConnect, ListTables, Print (FoundTables 2), Print Blank,
       Print (Processing ''my-table''), TableInfo ''my-table'']) \<and>
   exit_code (fst (main bad_first_env)) = 1 \<and>
   Commit \<notin> set (snd (main bad_first_env))"
proof -
  let ?log0 = "[Print Banner, Print Config, Prompt, Print ConnectingSqlite, SqliteConnect,
      Print ConnectingPg, PgConnect, ListTables,
      Print (FoundTables (length ([] @ ''my-table'' # [''users'']))), Print Blank]"
  have h1: "lower (response bad_first_env) \<in> set [''yes'', ''y'']"
    by (simp add: bad_first_env_simps string_case_defs)
  have h2: "sqlite_connect bad_first_env = None" and h3: "pg_connect bad_first_env = None"
    by (simp_all add: bad_first_env_simps)
  have h4: "list_tables bad_first_env = Inr ([] @ ''my-table'' # [''users''])"
    by (simp add: bad_first_env_simps)
  have h5: "?log0 = ?log0" ..
  have h6: "migrate_tables bad_first_env [] ?log0 = (Inr (), ?log0)" by simp
  have h7: "table_info bad_first_env ''my-table'' = Inl SqliteError"
    by (simp add: bad_first_env_simps users_env_simps)
  from introspection_failure_aborts_run [OF h1 h2 h3 h4 h5 h6 h7] h4 h7
  show ?thesis by (simp add: numeral_2_eq_2)
qed

text \<open>
  C1, as the claim has it, fails at the same source: \<open>users\<close> can be described, but after
  the failure at \<open>my-table\<close> the run never queries it, and exits with status 1.
\<close>

theorem introspection_failure_not_skipped_counterexample:
  "list_tables bad_first_env = Inr [''my-table'', ''users''] \<and>
   table_info bad_first_env ''my-table'' = Inl SqliteError \<and>
   table_info bad_first_env ''users'' = Inr users_schema \<and>
   main bad_first_env =
     (SysExit 1,
      [Print Banner, Print Config, Prompt, Print ConnectingSqlite, SqliteConnect,
       Print ConnectingPg, PgConnect, ListTables, Print (FoundTables 2), Print Blank,
       Print (Processing ''my-table''), TableInfo ''my-table'', Print SqliteErrorLine,
       SqliteClose, PgClose]) \<and>
   TableInfo ''users'' \<notin> set (snd (main bad_first_env)) \<and>
   exit_code (fst (main bad_first_env)) = 1"
proof -
  have m: "main bad_first_env =
     (SysExit 1,
      [Print Banner, Print Config, Prompt, Print ConnectingSqlite, SqliteConnect,
       Print ConnectingPg, PgConnect, ListTables, Print (FoundTables 2), Print Blank,
       Print (Processing ''my-table''), TableInfo ''my-table'', Print SqliteErrorLine,
       SqliteClose, PgClose])"
    by (simp add: run_defs bad_first_env_simps users_env_simps string_case_defs)
  show ?thesis unfolding m by (simp add: bad_first_env_simps users_env_simps)
qed

text \<open>
  C2, at the source that lists \<open>users\<close> before \<open>my-table\<close>. The target connection exists and
  \<open>users\<close> has been created and filled when \<open>PRAGMA table_info(my-table)\<close> raises
  \<open>sqlite3.Error\<close>. The process exits with status 1 and has not committed, but the
  clause \<open>except sqlite3.Error\<close> does not call \<open>rollback\<close>, as the two clauses after it do.
\<close>

theorem source_error_exits_without_rollback:
  "pg_bound bad_second_env \<and>
   table_info bad_second_env ''my-table'' = Inl SqliteError \<and>
   main bad_second_env =
     (SysExit 1,
      [Print Banner, Print Config, Prompt, Print ConnectingSqlite, SqliteConnect,
       Print ConnectingPg, PgConnect, ListTables, Print (FoundTables 2), Print Blank,
       Print (Processing ''users''), TableInfo ''users'',
       Execute (create_table_sql ''users'' users_schema), Print (Created ''users''),
       SelectAll ''users'', ColumnTypes ''users'',
       ExecuteMany (insert_sql ''users'' [''id'', ''active'', ''created''])
         [[VInt 1, VBool True, VDateTime (DateTime (Date 2023 11 14) (Time 22 13 20 0))],
          [VInt 2, VBool False, VDateTime (DateTime (Date 2023 11 14) (Time 23 13 20 0))]],
       Print (Migrated 2 ''users''), Print Blank,
       Print (Processing ''my-table''), TableInfo ''my-table'', Print SqliteErrorLine,
       SqliteClose, PgClose]) \<and>
   Rollback \<notin> set (snd (main bad_second_env))"
proof -
  have m: "main bad_second_env =
     (SysExit 1,
      [Print Banner, Print Config, Prompt, Print ConnectingSqlite, SqliteConnect,
       Print ConnectingPg, PgConnect, ListTables, Print (FoundTables 2), Print Blank,
       Print (Processing ''users''), TableInfo ''users'',
       Execute (create_table_sql ''users'' users_schema), Print (Created ''users''),
       SelectAll ''users'', ColumnTypes ''users'',
       ExecuteMany (insert_sql ''users'' [''id'', ''active'', ''created''])
         [[VInt 1, VBool True, VDateTime (DateTime (Date 2023 11 14) (Time 22 13 20 0))],
          [VInt 2, VBool False, VDateTime (DateTime (Date 2023 11 14) (Time 23 13 20 0))]],
       Print (Migrated 2 ''users''), Print Blank,
       Print (Processing ''my-table''), TableInfo ''my-table'', Print SqliteErrorLine,
       SqliteClose, PgClose])"
    by (simp add: run_defs bad_second_env_simps users_env_simps users_rows_facts
          bad_second_insert_batches string_case_defs)
  show ?thesis unfolding m
    by (simp add: pg_bound_def bad_second_env_simps users_env_simps)
qed

end
